theory Spec2Isabelle
  imports Main "HOL-Library.AList" "HOL-Library.Char_ord" "HOL-Library.List_Lexorder"
begin

section \<open>Go values\<close>

text \<open>
  A Go \<open>string\<close> is a sequence of bytes: \<^typ>\<open>string\<close>. A Go \<open>map[string]string\<close> is an
  association list with distinct keys; the order of the list is the order in which a
  \<open>range\<close> loop happens to visit the entries. Reading a missing key gives the zero value,
  the empty string. A \<open>nil\<close> map is \<open>None\<close> where the source can return one.
\<close>

type_synonym gomap = "(string \<times> string) list"

definition go_get :: "gomap \<Rightarrow> string \<Rightarrow> string" where
  "go_get m k = (case map_of m k of None \<Rightarrow> [] | Some v \<Rightarrow> v)"

definition go_set :: "gomap \<Rightarrow> string \<Rightarrow> string \<Rightarrow> gomap" where
  "go_set m k v = AList.update k v m"

text \<open>Go's \<open>int\<close> is 64 bits wide on the supported platform; \<open>wrap64\<close> is its wrap-around.\<close>

definition MinInt64 :: int where "MinInt64 = - (2 ^ 63)"
definition MaxInt64 :: int where "MaxInt64 = 2 ^ 63 - 1"

definition wrap64 :: "int \<Rightarrow> int" where
  "wrap64 x = (x + 2 ^ 63) mod 2 ^ 64 - 2 ^ 63"

text \<open>\<open>fmt.Sprintf("%d", i)\<close>.\<close>

fun digits10 :: "nat \<Rightarrow> string" where
  "digits10 n = (if n < 10 then [char_of (48 + n)]
                 else digits10 (n div 10) @ [char_of (48 + n mod 10)])"

declare digits10.simps [simp del]

definition Itoa :: "int \<Rightarrow> string" where
  "Itoa i = (if i < 0 then CHR ''-'' # digits10 (nat (- i)) else digits10 (nat i))"

section \<open>The operating system as the program sees it\<close>

text \<open>
  The effects of the source are binding and releasing TCP ports on localhost, running the
  \<open>open\<close> command, and receiving HTTP requests. The world records the ports bound by any
  process, the port the system hands out when port 0 is asked for, how \<open>open\<close> answers, the
  callback requests that reach a listener before the wait ends, whether a shutdown runs out
  of its grace period, and a log of the effects performed, in order.
\<close>

datatype event =
    EvListen int        \<comment> \<open>\<open>net.Listen("tcp", "localhost:<port>")\<close>\<close>
  | EvClose int         \<comment> \<open>a listener bound to the port is closed\<close>
  | EvStart int         \<comment> \<open>\<open>CallbackServer.Start\<close> on the server of that port\<close>
  | EvStop int          \<comment> \<open>\<open>CallbackServer.Stop\<close> on the server of that port\<close>
  | EvOpen string       \<comment> \<open>\<open>exec.Command("open", url).Run()\<close>\<close>

text \<open>A request that the mux routes to the \<open>/callback\<close> handler: the port it was sent to
  and \<open>r.URL.Query()\<close>, a \<open>map[string][]string\<close>.\<close>

record request =
  rport :: int
  rquery :: "(string \<times> string list) list"

record world =
  busy :: "int set"
  ephemeral :: "int set \<Rightarrow> int option"
  open_error :: "string \<Rightarrow> string option"
  replies :: "string \<Rightarrow> request list"
  shutdown_expires :: bool
  log :: "event list"

definition emit :: "event \<Rightarrow> world \<Rightarrow> world" where
  "emit e w = w\<lparr>log := log w @ [e]\<rparr>"

text \<open>
  \<open>net.Listen\<close>: a port outside 0..65535 is an invalid port; port 0 asks the system for a
  free port of its choice; a port that is bound already cannot be bound again. The result
  is the port the listener holds, or \<open>None\<close> for an error.
\<close>

definition bind_target :: "world \<Rightarrow> int \<Rightarrow> int option" where
  "bind_target w port =
     (if port < 0 \<or> 65535 < port then None
      else if port = 0 then
        (case ephemeral w (busy w) of
           None \<Rightarrow> None
         | Some q \<Rightarrow> if 0 < q \<and> q \<le> 65535 \<and> q \<notin> busy w then Some q else None)
      else if port \<in> busy w then None
      else Some port)"

definition net_Listen :: "world \<Rightarrow> int \<Rightarrow> int option \<times> world" where
  "net_Listen w port =
     (case bind_target w port of
        None \<Rightarrow> (None, emit (EvListen port) w)
      | Some q \<Rightarrow> (Some q, (emit (EvListen port) w)\<lparr>busy := insert q (busy w)\<rparr>))"

definition listener_Close :: "world \<Rightarrow> int \<Rightarrow> world" where
  "listener_Close w q = (emit (EvClose q) w)\<lparr>busy := busy w - {q}\<rparr>"

section \<open>Port allocator\<close>

definition IsPortAvailable :: "world \<Rightarrow> int \<Rightarrow> bool \<times> world" where
  "IsPortAvailable w port =
     (case net_Listen w port of
        (None, w1) \<Rightarrow> (False, w1)
      | (Some listener, w1) \<Rightarrow> (True, listener_Close w1 listener))"

text \<open>
  The loop of \<open>FindAvailablePort\<close>, from the current \<open>port\<close> up to the bound
  \<open>startPort+100\<close> computed in 64-bit arithmetic. Inside the loop \<open>port\<close> is below the
  bound, so \<open>port++\<close> cannot wrap.
\<close>

function FindAvailablePort_loop :: "world \<Rightarrow> int \<Rightarrow> int \<Rightarrow> int \<times> world" where
  "FindAvailablePort_loop w bound port =
     (if port < bound then
        (case IsPortAvailable w port of
           (True, w1) \<Rightarrow> (port, w1)
         | (False, w1) \<Rightarrow> FindAvailablePort_loop w1 bound (port + 1))
      else (- 1, w))"
  by pat_completeness auto
termination
  by (relation "measure (\<lambda>(w, bound, port). nat (bound - port))") auto

declare FindAvailablePort_loop.simps [simp del]

definition FindAvailablePort :: "world \<Rightarrow> int \<Rightarrow> int \<times> world" where
  "FindAvailablePort w startPort =
     FindAvailablePort_loop w (wrap64 (startPort + 100)) startPort"


section \<open>Functions of the Go standard library used by the source\<close>

text \<open>
  \<open>strings.Contains(s, substr)\<close>: \<open>substr\<close> occurs in \<open>s\<close> at some offset.
\<close>

definition Contains :: "string \<Rightarrow> string \<Rightarrow> bool" where
  "Contains s substr =
     list_ex (\<lambda>i. take (length substr) (drop i s) = substr) [0..<Suc (length s)]"

text \<open>
  \<open>strings.Split(s, sep)\<close> and \<open>strings.ReplaceAll(s, old, new)\<close> for a separator and a
  pattern of one byte, which is how the source calls them (\<open>","\<close> and \<open>"+"\<close>). A string
  with \<open>n\<close> separators splits into \<open>n + 1\<close> segments, empty ones included.
\<close>

fun Split :: "string \<Rightarrow> char \<Rightarrow> string list" where
  "Split [] sep = [[]]"
| "Split (c # cs) sep =
     (if c = sep then [] # Split cs sep
      else (case Split cs sep of [] \<Rightarrow> [[c]] | seg # segs \<Rightarrow> (c # seg) # segs))"

definition ReplaceAll :: "string \<Rightarrow> char \<Rightarrow> string \<Rightarrow> string" where
  "ReplaceAll s old new = concat (map (\<lambda>c. if c = old then new else [c]) s)"

text \<open>
  \<open>strings.TrimSpace\<close> removes leading and trailing white space as \<open>unicode.IsSpace\<close>
  defines it, read from the UTF-8 encoding of the string. \<open>space_runes\<close> lists the
  encodings of those runes: tab, line feed, vertical tab, form feed, carriage return,
  space, U+0085, U+00A0, U+1680, U+2000 to U+200A, U+2028, U+2029, U+202F, U+205F, U+3000.
  A byte sequence that is not one of these decodes to another rune or to the error rune,
  neither of which is white space.
\<close>

definition space_runes :: "string list" where
  "space_runes =
     [[CHR 0x09], [CHR 0x0A], [CHR 0x0B], [CHR 0x0C], [CHR 0x0D], [CHR 0x20],
      [CHR 0xC2, CHR 0x85], [CHR 0xC2, CHR 0xA0],
      [CHR 0xE1, CHR 0x9A, CHR 0x80],
      [CHR 0xE2, CHR 0x80, CHR 0x80], [CHR 0xE2, CHR 0x80, CHR 0x81],
      [CHR 0xE2, CHR 0x80, CHR 0x82], [CHR 0xE2, CHR 0x80, CHR 0x83],
      [CHR 0xE2, CHR 0x80, CHR 0x84], [CHR 0xE2, CHR 0x80, CHR 0x85],
      [CHR 0xE2, CHR 0x80, CHR 0x86], [CHR 0xE2, CHR 0x80, CHR 0x87],
      [CHR 0xE2, CHR 0x80, CHR 0x88], [CHR 0xE2, CHR 0x80, CHR 0x89],
      [CHR 0xE2, CHR 0x80, CHR 0x8A],
      [CHR 0xE2, CHR 0x80, CHR 0xA8], [CHR 0xE2, CHR 0x80, CHR 0xA9],
      [CHR 0xE2, CHR 0x80, CHR 0xAF],
      [CHR 0xE2, CHR 0x81, CHR 0x9F],
      [CHR 0xE3, CHR 0x80, CHR 0x80]]"

definition leading_space :: "string \<Rightarrow> nat" where
  "leading_space s =
     (case find (\<lambda>p. take (length p) s = p) space_runes of None \<Rightarrow> 0 | Some p \<Rightarrow> length p)"

definition trailing_space :: "string \<Rightarrow> nat" where
  "trailing_space s =
     (case find (\<lambda>p. length p \<le> length s \<and> drop (length s - length p) s = p) space_runes of
        None \<Rightarrow> 0 | Some p \<Rightarrow> length p)"

function TrimLeft :: "string \<Rightarrow> string" where
  "TrimLeft s = (if 0 < leading_space s \<and> leading_space s \<le> length s
                 then TrimLeft (drop (leading_space s) s) else s)"
  by pat_completeness auto
termination
  by (relation "measure length") auto

function TrimRight :: "string \<Rightarrow> string" where
  "TrimRight s = (if 0 < trailing_space s \<and> trailing_space s \<le> length s
                  then TrimRight (take (length s - trailing_space s) s) else s)"
  by pat_completeness auto
termination
  by (relation "measure length") auto

declare TrimLeft.simps [simp del] TrimRight.simps [simp del]

definition TrimSpace :: "string \<Rightarrow> string" where
  "TrimSpace s = TrimRight (TrimLeft s)"

text \<open>
  \<open>url.QueryEscape\<close>: letters, digits and \<open>- _ . ~\<close> stay; a space becomes \<open>+\<close>; every
  other byte becomes \<open>%\<close> and two upper-case hexadecimal digits.
\<close>

definition shouldEscape :: "char \<Rightarrow> bool" where
  "shouldEscape c =
     (if (CHR ''a'' \<le> c \<and> c \<le> CHR ''z'') \<or> (CHR ''A'' \<le> c \<and> c \<le> CHR ''Z'')
          \<or> (CHR ''0'' \<le> c \<and> c \<le> CHR ''9'') then False
      else if c = CHR ''-'' \<or> c = CHR ''_'' \<or> c = CHR ''.'' \<or> c = CHR ''~'' then False
      else True)"

definition upperhex :: string where
  "upperhex = ''0123456789ABCDEF''"

definition escape_byte :: "char \<Rightarrow> string" where
  "escape_byte c =
     (if shouldEscape c then
        (if c = CHR '' '' then ''+''
         else [CHR ''%'', upperhex ! (of_char c div 16), upperhex ! (of_char c mod 16)])
      else [c])"

definition QueryEscape :: "string \<Rightarrow> string" where
  "QueryEscape s = concat (map escape_byte s)"

text \<open>
  \<open>url.Values\<close> is a \<open>map[string][]string\<close>. \<open>Add\<close> appends a value to the list of a key;
  \<open>Encode\<close> walks the keys in sorted order and writes \<open>key=value\<close> for each value, with
  \<open>&\<close> before every pair but the first.
\<close>

type_synonym Values = "(string \<times> string list) list"

definition Values_Get :: "Values \<Rightarrow> string \<Rightarrow> string list" where
  "Values_Get v key = (case map_of v key of None \<Rightarrow> [] | Some vs \<Rightarrow> vs)"

definition Values_Add :: "Values \<Rightarrow> string \<Rightarrow> string \<Rightarrow> Values" where
  "Values_Add v key value = AList.update key (Values_Get v key @ [value]) v"

definition Values_Encode :: "Values \<Rightarrow> string" where
  "Values_Encode v =
     (if length v = 0 then []
      else fold (\<lambda>k buf.
             fold (\<lambda>val buf.
                    (if 0 < length buf then buf @ ''&'' else buf)
                      @ QueryEscape k @ ''='' @ QueryEscape val)
                  (Values_Get v k) buf)
           (sort (map fst v)) [])"

section \<open>Request builder\<close>

definition EncodeParam :: "string \<Rightarrow> string" where
  "EncodeParam value = QueryEscape value"

definition EncodeParams :: "gomap \<Rightarrow> string" where
  "EncodeParams params =
     (let v = fold (\<lambda>(key, value) v. Values_Add v key value) params [];
          encoded = Values_Encode v
      in ReplaceAll encoded (CHR ''+'') ''%20'')"

definition buildThingsURL :: "string \<Rightarrow> gomap \<Rightarrow> string" where
  "buildThingsURL action params =
     (let baseURL = ''things:///'' @ action;
          queryStr = EncodeParams params
      in if queryStr = [] then baseURL else baseURL @ ''?'' @ queryStr)"

text \<open>
  The encoding the specification asks for, in its own words: every byte that is not an
  unreserved character is percent-encoded, a space as \<open>%20\<close>; pairs are \<open>key=value\<close>
  joined by \<open>&\<close>.
\<close>

definition spec_percent_encode :: "string \<Rightarrow> string" where
  "spec_percent_encode s =
     concat (map (\<lambda>c. if shouldEscape c
                        then [CHR ''%'', upperhex ! (of_char c div 16), upperhex ! (of_char c mod 16)]
                        else [c]) s)"

fun spec_join :: "string list \<Rightarrow> string" where
  "spec_join [] = []"
| "spec_join [x] = x"
| "spec_join (x # y # ys) = x @ ''&'' @ spec_join (y # ys)"

definition spec_query :: "gomap \<Rightarrow> string" where
  "spec_query params =
     spec_join (map (\<lambda>k. spec_percent_encode k @ ''='' @ spec_percent_encode (go_get params k))
                    (sort (map fst params)))"

text \<open>One \<open>key=value\<close> pair as \<open>Values.Encode\<close> writes it, for a key with a single value.\<close>

definition enc_pair :: "gomap \<Rightarrow> string \<Rightarrow> string" where
  "enc_pair ps k = QueryEscape k @ ''='' @ QueryEscape (go_get ps k)"

section \<open>Response normalizer\<close>

text \<open>
  \<open>ActionResult\<close>. An unset string is the empty string, an unset slice the empty list,
  an unset map \<open>None\<close>.
\<close>

record ActionResult =
  Action :: string
  ThingsID :: string
  ThingsIDs :: "string list"
  ThingsSchemeVersion :: string
  ThingsClientVersion :: string
  Callback :: "gomap option"

text \<open>
  \<open>NormalizeResponse\<close>. \<open>json.Unmarshal\<close> into a \<open>[]string\<close> belongs to the standard
  library and is a parameter: \<open>unmarshal ids\<close> is \<open>Some parsed\<close> when the call returns no
  error and \<open>None\<close> otherwise. A \<open>nil\<close> callback map and an empty one both have length 0.
\<close>

definition NormalizeResponse ::
  "(string \<Rightarrow> string list option) \<Rightarrow> string \<Rightarrow> gomap \<Rightarrow> ActionResult" where
  "NormalizeResponse unmarshal action callback =
     (let result = \<lparr>Action = action, ThingsID = [], ThingsIDs = [], ThingsSchemeVersion = [],
                     ThingsClientVersion = [], Callback = None\<rparr>
      in if length callback = 0 then result
         else
           let cleaned = fold (\<lambda>(key, value) cleaned.
                                 if key = ''result'' then cleaned else go_set cleaned key value)
                              callback [];
               result = result\<lparr>Callback := Some cleaned\<rparr>;
               ids = go_get callback ''x-things-ids'';
               result = (if ids \<noteq> [] then
                           (case unmarshal ids of
                              Some parsed \<Rightarrow> result\<lparr>ThingsIDs := parsed\<rparr>
                            | None \<Rightarrow> result)
                         else result);
               id = go_get callback ''x-things-id'';
               result = (if id \<noteq> [] then
                           (if Contains id '','' then
                              fold (\<lambda>part result.
                                      let trimmed = TrimSpace part
                                      in if trimmed \<noteq> []
                                         then result\<lparr>ThingsIDs := ThingsIDs result @ [trimmed]\<rparr>
                                         else result)
                                   (Split id (CHR '','')) result
                            else result\<lparr>ThingsID := id\<rparr>)
                         else result);
               result = (if go_get callback ''x-things-scheme-version'' \<noteq> []
                         then result\<lparr>ThingsSchemeVersion :=
                                        go_get callback ''x-things-scheme-version''\<rparr>
                         else result);
               result = (if go_get callback ''x-things-client-version'' \<noteq> []
                         then result\<lparr>ThingsClientVersion :=
                                        go_get callback ''x-things-client-version''\<rparr>
                         else result)
           in result)"

text \<open>
  What the specification counts for a single-identifier field: its separator-delimited
  segments that are not empty.
\<close>

definition spec_nonempty_segments :: "string \<Rightarrow> nat" where
  "spec_nonempty_segments v = length (filter (\<lambda>seg. seg \<noteq> []) (Split v (CHR '','')))"

section \<open>Configuration\<close>

text \<open>\<open>Config\<close>, without its \<open>LastUpdated\<close> time stamp, which nothing here reads.\<close>

record Config =
  cfg_AuthToken :: string
  cfg_CallbackPort :: int
  CallbackTimeoutSeconds :: int
  OutputFormat :: string

definition DefaultConfig :: Config where
  "DefaultConfig = \<lparr>cfg_AuthToken = [], cfg_CallbackPort = 8765, CallbackTimeoutSeconds = 10,
                     OutputFormat = ''json''\<rparr>"

text \<open>
  What \<open>LoadConfig\<close> finds: no home directory, no file at the configuration path, a file
  that cannot be read, a file that is not JSON for a \<open>Config\<close>, or a configuration.
  \<open>environ\<close> is what the process reads besides: its environment variables.
\<close>

datatype config_file = NoHomeDir | NotExist | Unreadable | Malformed | Stored Config

record environ =
  getenv :: "string \<Rightarrow> string"
  config_file :: config_file

datatype error =
    ErrHomeDir                      \<comment> \<open>the error of \<open>os.UserHomeDir\<close>\<close>
  | ErrReadConfig                   \<comment> \<open>"failed to read config file: ..."\<close>
  | ErrParseConfig                  \<comment> \<open>"failed to parse config file: ..."\<close>
  | ErrAuthTokenRequired            \<comment> \<open>"auth token required (set with ...)"\<close>
  | ErrNoCallbackPort               \<comment> \<open>"no available callback port found"\<close>
  | ErrAlreadyStarted               \<comment> \<open>"callback server already started"\<close>
  | ErrStartFailed error            \<comment> \<open>"failed to start callback server: %w"\<close>
  | ErrExecuteURL string            \<comment> \<open>"failed to execute Things URL: %w"\<close>
  | ErrCallbackTimeout int          \<comment> \<open>"callback timeout: no response from Things within %v"\<close>
  | ErrShutdown                     \<comment> \<open>"failed to shutdown callback server: %w"\<close>
  | CallbackError string string gomap  \<comment> \<open>\<open>&CallbackError{Code, Message, Callback}\<close>\<close>

definition LoadConfig :: "environ \<Rightarrow> error + Config" where
  "LoadConfig e =
     (case config_file e of
        NoHomeDir \<Rightarrow> Inl ErrHomeDir
      | NotExist \<Rightarrow> Inr DefaultConfig
      | Unreadable \<Rightarrow> Inl ErrReadConfig
      | Malformed \<Rightarrow> Inl ErrParseConfig
      | Stored config \<Rightarrow> Inr config)"

definition GetAuthToken :: "environ \<Rightarrow> error + string" where
  "GetAuthToken e =
     (let token = getenv e ''THINGS_AUTH_TOKEN''
      in if token \<noteq> [] then Inr token
         else (case LoadConfig e of
                 Inl err \<Rightarrow> Inl err
               | Inr config \<Rightarrow> Inr (cfg_AuthToken config)))"

section \<open>Callback receiver\<close>

text \<open>
  \<open>CallbackServer\<close>. \<open>server\<close> is the address of the \<open>http.Server\<close>, \<open>None\<close> while the field
  is \<open>nil\<close>. \<open>response\<close> is the channel of capacity 1: the reply it holds, if any.
  \<open>listener\<close> is the port held by the listener of the serving goroutine, \<open>None\<close> when that
  goroutine has no listener.
\<close>

record CallbackServer =
  Port :: int
  server :: "string option"
  response :: "gomap option"
  started :: bool
  listener :: "int option"

definition NewCallbackServer :: "int \<Rightarrow> CallbackServer" where
  "NewCallbackServer port =
     \<lparr>Port = port, server = None, response = None, started = False, listener = None\<rparr>"

record http_response =
  status :: int
  content_type :: "string option"
  body :: string

text \<open>The page the handler writes with status 200, byte for byte.\<close>

definition success_page :: string where
  "success_page =
     ''<!DOCTYPE html>'' @ [CHR 0x0A] @
     ''<html>'' @ [CHR 0x0A] @
     ''<head>'' @ [CHR 0x0A] @
     ''<meta charset='' @ [CHR 0x22] @ ''utf-8'' @ [CHR 0x22] @ ''>'' @ [CHR 0x0A] @
     ''<meta name='' @ [CHR 0x22] @ ''viewport'' @ [CHR 0x22] @ '' content='' @ [CHR 0x22] @ ''width=device-width, initial-scale=1'' @ [CHR 0x22] @ ''>'' @ [CHR 0x0A] @
     ''<title>Things CLI</title>'' @ [CHR 0x0A] @
     ''<style>'' @ [CHR 0x0A] @
     ''body{font-family:-apple-system,BlinkMacSystemFont,'' @ [CHR 0x22] @ ''Segoe UI'' @ [CHR 0x22] @ '',Roboto,sans-serif;'' @ [CHR 0x0A] @
     ''     display:flex;align-items:center;justify-content:center;height:100vh;'' @ [CHR 0x0A] @
     ''     margin:0;background:#f5f5f5;color:#333;}'' @ [CHR 0x0A] @
     ''.msg{text-align:center;padding:2rem;background:white;border-radius:8px;'' @ [CHR 0x0A] @
     ''     box-shadow:0 2px 8px rgba(0,0,0,0.1);}'' @ [CHR 0x0A] @
     ''h1{margin:0 0 0.5rem;font-size:1.5rem;color:#2563eb;}'' @ [CHR 0x0A] @
     ''p{margin:0;font-size:0.9rem;color:#666;}'' @ [CHR 0x0A] @
     ''</style>'' @ [CHR 0x0A] @
     ''</head>'' @ [CHR 0x0A] @
     ''<body>'' @ [CHR 0x0A] @
     ''<div class='' @ [CHR 0x22] @ ''msg'' @ [CHR 0x22] @ ''>'' @ [CHR 0x0A] @
     ''<h1>'' @ [CHR 0xE2, CHR 0x9C, CHR 0x93] @ '' Success</h1>'' @ [CHR 0x0A] @
     ''<p>Things CLI callback received. You can close this tab.</p>'' @ [CHR 0x0A] @
     ''</div>'' @ [CHR 0x0A] @
     ''<script>'' @ [CHR 0x0A] @
     ''setTimeout(function(){window.close();},500);'' @ [CHR 0x0A] @
     ''setTimeout(function(){document.body.innerHTML='' @ [CHR 0x27] @ ''<div class='' @ [CHR 0x22] @ ''msg'' @ [CHR 0x22] @ ''><h1>'' @ [CHR 0xE2, CHR 0x9C, CHR 0x93] @ '' Success</h1><p>You can close this tab now.</p></div>'' @ [CHR 0x27] @ '';},600);'' @ [CHR 0x0A] @
     ''</script>'' @ [CHR 0x0A] @
     ''</body>'' @ [CHR 0x0A] @
     ''</html>''"

text \<open>
  The handler of \<open>/callback\<close>: the first value of every query key; a non-blocking send on
  the channel; 200 and the page when the send went through, 500 when the channel is full.
\<close>

definition callback_params :: "(string \<times> string list) list \<Rightarrow> gomap" where
  "callback_params query =
     fold (\<lambda>(key, values) params.
             if 0 < length values then go_set params key (hd values) else params)
          query []"

definition handler :: "CallbackServer \<Rightarrow> request \<Rightarrow> http_response \<times> CallbackServer" where
  "handler s r =
     (let params = callback_params (rquery r)
      in case response s of
           None \<Rightarrow>
             (\<lparr>status = 200, content_type = Some ''text/html; charset=utf-8'',
               body = success_page\<rparr>,
              s\<lparr>response := Some params\<rparr>)
         | Some _ \<Rightarrow>
             (\<lparr>status = 500, content_type = None, body = ''Failed to process response''\<rparr>, s))"

text \<open>
  \<open>Start\<close>. The goroutine calls \<open>net.Listen\<close> and closes \<open>ready\<close> whether the call
  succeeded or not; \<open>Start\<close> waits for \<open>ready\<close>, sets \<open>started\<close> and returns \<open>nil\<close>. The
  goroutine serves only when it has a listener.
\<close>

definition Start :: "CallbackServer \<Rightarrow> world \<Rightarrow> error option \<times> CallbackServer \<times> world" where
  "Start s w =
     (let w0 = emit (EvStart (Port s)) w
      in if started s then (Some ErrAlreadyStarted, s, w0)
         else
           let s1 = s\<lparr>server := Some (''localhost:'' @ Itoa (Port s))\<rparr>;
               (l, w1) = net_Listen w0 (Port s)
           in (None, s1\<lparr>listener := l, started := True\<rparr>, w1))"

text \<open>
  \<open>Stop\<close>. \<open>Shutdown\<close> closes the listeners first and then waits for connections until
  the two seconds of its context are over, which is its only error.
\<close>

definition Stop :: "CallbackServer \<Rightarrow> world \<Rightarrow> error option \<times> CallbackServer \<times> world" where
  "Stop s w =
     (let w0 = emit (EvStop (Port s)) w
      in if \<not> started s \<or> server s = None then (None, s, w0)
         else
           let w1 = (case listener s of None \<Rightarrow> w0 | Some q \<Rightarrow> listener_Close w0 q);
               s1 = s\<lparr>listener := None\<rparr>
           in if shutdown_expires w then (Some ErrShutdown, s1, w1)
              else (None, s1\<lparr>started := False\<rparr>, w1))"

text \<open>
  The serving goroutine takes a request when it holds the listener of the port the request
  was sent to.
\<close>

definition serve :: "CallbackServer \<Rightarrow> request \<Rightarrow> http_response option \<times> CallbackServer" where
  "serve s r =
     (if listener s = Some (rport r)
      then (case handler s r of (resp, s1) \<Rightarrow> (Some resp, s1))
      else (None, s))"

definition serve_all :: "CallbackServer \<Rightarrow> request list \<Rightarrow> CallbackServer" where
  "serve_all s rs = fold (\<lambda>r s. snd (serve s r)) rs s"

text \<open>
  \<open>WaitForResponse\<close>: the reply in the channel, which is taken out, or the timeout error
  when the channel stays empty for the given time.
\<close>

definition WaitForResponse ::
  "CallbackServer \<Rightarrow> int \<Rightarrow> (error + gomap) \<times> CallbackServer" where
  "WaitForResponse s timeout =
     (case response s of
        Some reply \<Rightarrow> (Inr reply, s\<lparr>response := None\<rparr>)
      | None \<Rightarrow> (Inl (ErrCallbackTimeout timeout), s))"

section \<open>Dispatcher\<close>

record Client =
  AuthToken :: string
  CallbackPort :: int
  timeout :: int

record ExecuteOptions =
  RequiresAuth :: bool
  UseAuthIfAvailable :: bool

definition NewClient :: "environ \<Rightarrow> Client" where
  "NewClient e =
     (let token = (case GetAuthToken e of Inl err \<Rightarrow> [] | Inr token \<Rightarrow> token);
          config = (case LoadConfig e of Inl err \<Rightarrow> DefaultConfig | Inr config \<Rightarrow> config)
      in \<lparr>AuthToken = token, CallbackPort = cfg_CallbackPort config,
          timeout = wrap64 (CallbackTimeoutSeconds config * 1000000000)\<rparr>)"

text \<open>
  \<open>Execute\<close> from the launch of the URL to its last \<open>return\<close>: the part that runs with
  \<open>callbackServer.Stop()\<close> deferred. The requests of the world reach the server while
  \<open>WaitForResponse\<close> blocks.
\<close>

definition Execute_deferred ::
  "Client \<Rightarrow> string \<Rightarrow> gomap \<Rightarrow> CallbackServer \<Rightarrow> world
     \<Rightarrow> (gomap option \<times> error option) \<times> CallbackServer \<times> world" where
  "Execute_deferred c action params callbackServer w =
     (let thingsURL = buildThingsURL action params;
          w1 = emit (EvOpen thingsURL) w
      in case open_error w thingsURL of
           Some err \<Rightarrow> ((None, Some (ErrExecuteURL err)), callbackServer, w1)
         | None \<Rightarrow>
             (case WaitForResponse (serve_all callbackServer (replies w thingsURL)) (timeout c) of
                (Inl err, s1) \<Rightarrow> ((None, Some err), s1, w1)
              | (Inr reply, s1) \<Rightarrow>
                  if go_get reply ''result'' = ''error'' then
                    let code = go_get reply ''errorCode'';
                        message = go_get reply ''errorMessage'';
                        message = (if message = [] then ''Things returned an error'' else message)
                    in ((Some reply, Some (CallbackError code message reply)), s1, w1)
                  else ((Some reply, None), s1, w1)))"

text \<open>
  \<open>Execute\<close> from \<open>callbackServer.Start()\<close> on, for the server it has just made: the
  start, whose error ends the call, and the rest with \<open>Stop\<close> deferred, which runs after
  whatever that rest returns.
\<close>

definition Execute_with_server ::
  "Client \<Rightarrow> string \<Rightarrow> gomap \<Rightarrow> CallbackServer \<Rightarrow> world
     \<Rightarrow> (gomap option \<times> error option) \<times> world" where
  "Execute_with_server c action params callbackServer w2 =
     (case Start callbackServer w2 of
        (Some err, s, w3) \<Rightarrow> ((None, Some (ErrStartFailed err)), w3)
      | (None, s, w3) \<Rightarrow>
          (case Execute_deferred c action params s w3 of
             (ret, s1, w4) \<Rightarrow>
               (case Stop s1 w4 of (stop_err, s2, w5) \<Rightarrow> (ret, w5))))"

text \<open>
  \<open>Execute\<close>. The result is the pair the source returns, the map (\<open>None\<close> for \<open>nil\<close>) and
  the error (\<open>None\<close> for \<open>nil\<close>), with the world after the call.
\<close>

definition Execute ::
  "Client \<Rightarrow> string \<Rightarrow> gomap option \<Rightarrow> ExecuteOptions \<Rightarrow> world
     \<Rightarrow> (gomap option \<times> error option) \<times> world" where
  "Execute c action params0 opts w =
     (let params = (case params0 of None \<Rightarrow> [] | Some m \<Rightarrow> m)
      in case (if go_get params ''auth-token'' = [] \<and> (RequiresAuth opts \<or> UseAuthIfAvailable opts)
               then (if AuthToken c \<noteq> [] then Inr (go_set params ''auth-token'' (AuthToken c))
                     else if RequiresAuth opts then Inl ErrAuthTokenRequired
                     else Inr params)
               else Inr params) of
           Inl err \<Rightarrow> ((None, Some err), w)
         | Inr params \<Rightarrow>
             (case (case IsPortAvailable w (CallbackPort c) of
                      (True, w1) \<Rightarrow> (Inr (CallbackPort c), w1)
                    | (False, w1) \<Rightarrow>
                        (case FindAvailablePort w1 (wrap64 (CallbackPort c + 1)) of
                           (alt, w2) \<Rightarrow>
                             if alt < 0 then (Inl ErrNoCallbackPort, w2) else (Inr alt, w2))) of
                (Inl err, w2) \<Rightarrow> ((None, Some err), w2)
              | (Inr port, w2) \<Rightarrow>
                  let params = go_set params ''x-success''
                                 (''http://localhost:'' @ Itoa port @ ''/callback?result=success'');
                      params = go_set params ''x-error''
                                 (''http://localhost:'' @ Itoa port @ ''/callback?result=error'');
                      callbackServer = NewCallbackServer port
                  in Execute_with_server c action params callbackServer w2))"

text \<open>The events of a port probe, as opposed to those of a server or of the launcher.\<close>

definition probe_event :: "event \<Rightarrow> bool" where
  "probe_event e = (case e of EvListen port \<Rightarrow> True | EvClose port \<Rightarrow> True | _ \<Rightarrow> False)"

text \<open>
  \<open>probes_only w w'\<close>: the world \<open>w'\<close> differs from \<open>w\<close> by port probes in the log and by
  nothing else.
\<close>

definition probes_only :: "world \<Rightarrow> world \<Rightarrow> bool" where
  "probes_only w w' =
     (busy w' = busy w \<and> ephemeral w' = ephemeral w \<and> open_error w' = open_error w
      \<and> replies w' = replies w \<and> shutdown_expires w' = shutdown_expires w
      \<and> list_all probe_event (drop (length (log w)) (log w'))
      \<and> take (length (log w)) (log w') = log w)"

section \<open>Example worlds\<close>

text \<open>A world in which ports 8765 and 8766 are held by other processes, the launcher works
  and the application never calls back.\<close>

definition world_two_busy :: world where
  "world_two_busy = \<lparr>busy = {8765, 8766}, ephemeral = (\<lambda>_. None), open_error = (\<lambda>_. None),
     replies = (\<lambda>_. []), shutdown_expires = False, log = []\<rparr>"

text \<open>
  A decoder for examples: it accepts a JSON array of strings made of letters, digits and
  hyphens, written without white space, as in \<open>["A-1","B-2"]\<close>, and rejects everything
  else. On the arrays it accepts it returns what \<open>json.Unmarshal\<close> returns.
\<close>

definition plain_item :: "string \<Rightarrow> bool" where
  "plain_item s =
     (2 \<le> length s \<and> hd s = CHR 0x22 \<and> last s = CHR 0x22 \<and>
      list_all (\<lambda>c. (CHR ''a'' \<le> c \<and> c \<le> CHR ''z'') \<or> (CHR ''A'' \<le> c \<and> c \<le> CHR ''Z'')
                     \<or> (CHR ''0'' \<le> c \<and> c \<le> CHR ''9'') \<or> c = CHR ''-'')
               (butlast (tl s)))"

definition decode_plain_array :: "string \<Rightarrow> string list option" where
  "decode_plain_array s =
     (if s = ''[]'' then Some []
      else if 2 \<le> length s \<and> hd s = CHR ''['' \<and> last s = CHR '']''
                \<and> list_all plain_item (Split (butlast (tl s)) (CHR '',''))
           then Some (map (\<lambda>item. butlast (tl item)) (Split (butlast (tl s)) (CHR '','')))
           else None)"


text \<open>A client with no credential, on the default port with a timeout of ten seconds, and
  the options of a call that can do without a credential.\<close>

definition client_default :: Client where
  "client_default = \<lparr>AuthToken = [], CallbackPort = 8765, timeout = 10000000000\<rparr>"

definition opts_none :: ExecuteOptions where
  "opts_none = \<lparr>RequiresAuth = False, UseAuthIfAvailable = False\<rparr>"

text \<open>An environment without a credential (no variable, no configuration file), one with a
  credential in both places, and the options of a call that needs a credential.\<close>

definition environ_empty :: environ where
  "environ_empty = \<lparr>getenv = (\<lambda>name. []), config_file = NotExist\<rparr>"

definition environ_both :: environ where
  "environ_both =
     \<lparr>getenv = (\<lambda>name. if name = ''THINGS_AUTH_TOKEN'' then ''from-env'' else []),
      config_file = Stored \<lparr>cfg_AuthToken = ''from-file'', cfg_CallbackPort = 8765,
                            CallbackTimeoutSeconds = 10, OutputFormat = ''json''\<rparr>\<rparr>"

definition opts_auth :: ExecuteOptions where
  "opts_auth = \<lparr>RequiresAuth = True, UseAuthIfAvailable = False\<rparr>"

text \<open>Two callback requests to port 8765; the first repeats a key.\<close>

definition request_first :: request where
  "request_first = \<lparr>rport = 8765,
     rquery = [(''result'', [''success'', ''again'']), (''x-things-id'', [''ABC-123''])]\<rparr>"

definition request_second :: request where
  "request_second = \<lparr>rport = 8765, rquery = [(''result'', [''error''])]\<rparr>"

section \<open>Properties of the port allocator\<close>


lemma IsPortAvailable_eq:
  "IsPortAvailable w q = (bind_target w q \<noteq> None,
     (case bind_target w q of None \<Rightarrow> emit (EvListen q) w
      | Some l \<Rightarrow> emit (EvClose l) (emit (EvListen q) w)))"
  by (auto simp: IsPortAvailable_def net_Listen_def listener_Close_def emit_def bind_target_def
      split: option.splits if_splits)

lemma bind_target_cong:
  "busy w' = busy w \<Longrightarrow> ephemeral w' = ephemeral w \<Longrightarrow> bind_target w' q = bind_target w q"
  by (simp add: bind_target_def split: option.splits)

lemma IsPortAvailable_frame:
  "busy (snd (IsPortAvailable w q)) = busy w \<and> ephemeral (snd (IsPortAvailable w q)) = ephemeral w"
  by (simp add: IsPortAvailable_eq emit_def split: option.splits)

lemma bind_target_range: "bind_target w q \<noteq> None \<Longrightarrow> 0 \<le> q \<and> q \<le> 65535"
  by (auto simp: bind_target_def split: if_splits)

lemma loop_none:
  "\<forall>q. port \<le> q \<and> q < bound \<longrightarrow> \<not> fst (IsPortAvailable w q) \<Longrightarrow>
   fst (FindAvailablePort_loop w bound port) = - 1"
proof (induction w bound port rule: FindAvailablePort_loop.induct)
  case (1 w bound port)
  show ?case
  proof (cases "port < bound")
    case False
    then show ?thesis by (simp add: FindAvailablePort_loop.simps)
  next
    case True
    obtain b w1 where pw: "IsPortAvailable w port = (b, w1)" by (cases "IsPortAvailable w port")
    from 1(2) True pw have nb: "\<not> b" by auto
    have fr: "busy w1 = busy w" "ephemeral w1 = ephemeral w"
      using IsPortAvailable_frame[of w port] pw by auto
    have "\<forall>q. port + 1 \<le> q \<and> q < bound \<longrightarrow> \<not> fst (IsPortAvailable w1 q)"
      using 1(2) fr by (simp add: IsPortAvailable_eq bind_target_cong[OF fr])
    then have "fst (FindAvailablePort_loop w1 bound (port + 1)) = - 1"
      using 1(1)[OF True pw[symmetric]] nb by simp
    then show ?thesis using True pw nb by (simp add: FindAvailablePort_loop.simps[of w bound port])
  qed
qed

lemma loop_first:
  "port \<le> r \<Longrightarrow> r < bound \<Longrightarrow> fst (IsPortAvailable w r) \<Longrightarrow>
   \<forall>q. port \<le> q \<and> q < r \<longrightarrow> \<not> fst (IsPortAvailable w q) \<Longrightarrow>
   fst (FindAvailablePort_loop w bound port) = r"
proof (induction w bound port rule: FindAvailablePort_loop.induct)
  case (1 w bound port)
  have lt: "port < bound" using 1 by simp
  obtain b w1 where pw: "IsPortAvailable w port = (b, w1)" by (cases "IsPortAvailable w port")
  have fr: "busy w1 = busy w" "ephemeral w1 = ephemeral w"
    using IsPortAvailable_frame[of w port] pw by auto
  show ?case
  proof (cases b)
    case True
    then have "port = r" using 1(2,5) pw by (metis fst_conv le_less)
    then show ?thesis using lt pw True by (subst FindAvailablePort_loop.simps) simp
  next
    case False
    then have ne: "port \<noteq> r" using 1(4) pw by auto
    have a: "port + 1 \<le> r" using ne 1(2) by simp
    have b: "fst (IsPortAvailable w1 r)" using 1(4) by (simp add: IsPortAvailable_eq bind_target_cong[OF fr])
    have c: "\<forall>q. port + 1 \<le> q \<and> q < r \<longrightarrow> \<not> fst (IsPortAvailable w1 q)"
      using 1(5) by (simp add: IsPortAvailable_eq bind_target_cong[OF fr])
    have "fst (FindAvailablePort_loop w1 bound (port + 1)) = r"
      using 1(1)[OF lt pw[symmetric] _ a 1(3) b c] False by simp
    then show ?thesis using lt pw False by (simp add: FindAvailablePort_loop.simps[of w bound port])
  qed
qed


lemma wrap64_id: "MinInt64 \<le> x \<Longrightarrow> x \<le> MaxInt64 \<Longrightarrow> wrap64 x = x"
  by (simp add: wrap64_def MinInt64_def MaxInt64_def)

lemma wrap64_over: "MaxInt64 < x \<Longrightarrow> x \<le> MaxInt64 + 100 \<Longrightarrow> wrap64 x = x - 2 ^ 64"
proof -
  assume a: "MaxInt64 < x" "x \<le> MaxInt64 + 100"
  have "(x + 2 ^ 63) mod 2 ^ 64 = x + 2 ^ 63 - 2 ^ 64"
    using a by (simp add: MaxInt64_def mod_pos_geq)
  then show ?thesis by (simp add: wrap64_def)
qed

lemma available_range: "fst (IsPortAvailable w q) \<Longrightarrow> 0 \<le> q \<and> q \<le> 65535"
  by (simp add: IsPortAvailable_eq bind_target_range)

lemma FindAvailablePort_none:
  assumes "MinInt64 \<le> p" "p \<le> MaxInt64"
    and "\<forall>q. p \<le> q \<and> q \<le> p + 99 \<longrightarrow> \<not> fst (IsPortAvailable w q)"
  shows "fst (FindAvailablePort w p) = - 1"
proof (cases "p + 100 \<le> MaxInt64")
  case True
  then have "wrap64 (p + 100) = p + 100" using assms(1) by (simp add: wrap64_id)
  then show ?thesis using assms(3) by (simp add: FindAvailablePort_def loop_none)
next
  case False
  then have "wrap64 (p + 100) = p + 100 - 2 ^ 64" using assms(2) by (simp add: wrap64_over)
  then have "\<not> p < wrap64 (p + 100)" by simp
  then show ?thesis by (simp add: FindAvailablePort_def FindAvailablePort_loop.simps)
qed

lemma FindAvailablePort_first:
  assumes "MinInt64 \<le> p" "p \<le> MaxInt64"
    and "p \<le> r" "r \<le> p + 99" "fst (IsPortAvailable w r)"
    and "\<forall>q. p \<le> q \<and> q < r \<longrightarrow> \<not> fst (IsPortAvailable w q)"
  shows "fst (FindAvailablePort w p) = r"
proof -
  have "r \<le> 65535" using assms(5) available_range by blast
  then have "p + 100 \<le> MaxInt64" using assms(3) by (simp add: MaxInt64_def)
  then have "wrap64 (p + 100) = p + 100" using assms(1) by (simp add: wrap64_id)
  then show ?thesis using assms(3-6) by (simp add: FindAvailablePort_def loop_first)
qed

lemma least_candidate:
  fixes P :: "int \<Rightarrow> bool"
  assumes "p \<le> q" "P q"
  shows "\<exists>r. p \<le> r \<and> r \<le> q \<and> P r \<and> (\<forall>q'. p \<le> q' \<and> q' < r \<longrightarrow> \<not> P q')"
proof -
  define Q where "Q k = P (p + int k)" for k
  have "Q (nat (q - p))" using assms by (simp add: Q_def)
  then obtain k where k: "Q k" "\<forall>j<k. \<not> Q j" "k \<le> nat (q - p)"
    by (metis LeastI Least_le not_less_Least)
  have "\<forall>q'. p \<le> q' \<and> q' < p + int k \<longrightarrow> \<not> P q'"
  proof (intro allI impI)
    fix q' assume a: "p \<le> q' \<and> q' < p + int k"
    then have "nat (q' - p) < k" by auto
    then have "\<not> Q (nat (q' - p))" using k(2) by blast
    then show "\<not> P q'" using a by (simp add: Q_def)
  qed
  moreover have "p \<le> p + int k" "p + int k \<le> q" using k(3) assms(1) by auto
  ultimately show ?thesis using k(1) unfolding Q_def by blast
qed

text \<open>
  Claim C8. For every starting port \<open>p\<close> (a 64-bit \<open>int\<close>), \<open>FindAvailablePort(p)\<close> returns
  either a port in \<open>[p, p+99]\<close> that \<open>IsPortAvailable\<close> reports available, or the sentinel
  \<open>-1\<close>; it returns the sentinel exactly when none of the 100 candidates is available, and
  otherwise no candidate below the returned port is available.
\<close>

theorem FindAvailablePort_spec:
  assumes "MinInt64 \<le> p" "p \<le> MaxInt64"
  shows "(fst (FindAvailablePort w p) = - 1 \<or>
          (p \<le> fst (FindAvailablePort w p) \<and> fst (FindAvailablePort w p) \<le> p + 99 \<and>
           fst (IsPortAvailable w (fst (FindAvailablePort w p)))))
       \<and> (fst (FindAvailablePort w p) = - 1 \<longleftrightarrow>
            (\<forall>q. p \<le> q \<and> q \<le> p + 99 \<longrightarrow> \<not> fst (IsPortAvailable w q)))
       \<and> (\<forall>q. p \<le> q \<and> q < fst (FindAvailablePort w p) \<longrightarrow> \<not> fst (IsPortAvailable w q))"
proof (cases "\<exists>q. p \<le> q \<and> q \<le> p + 99 \<and> fst (IsPortAvailable w q)")
  case False
  then have r: "fst (FindAvailablePort w p) = - 1"
    using FindAvailablePort_none[OF assms] by blast
  have "\<forall>q. p \<le> q \<and> q < - 1 \<longrightarrow> \<not> fst (IsPortAvailable w q)"
    using available_range by fastforce
  then show ?thesis using r False by auto
next
  case True
  then obtain q where q: "p \<le> q" "q \<le> p + 99" "fst (IsPortAvailable w q)" by blast
  obtain r where r: "p \<le> r" "r \<le> q" "fst (IsPortAvailable w r)"
      "\<forall>q'. p \<le> q' \<and> q' < r \<longrightarrow> \<not> fst (IsPortAvailable w q')"
    using least_candidate[of p q "\<lambda>x. fst (IsPortAvailable w x)"] q by blast
  have res: "fst (FindAvailablePort w p) = r"
    using FindAvailablePort_first[OF assms r(1) _ r(3,4)] r(2) q(2) by simp
  have "0 \<le> r" using r(3) available_range by blast
  then have "r \<noteq> - 1" by simp
  then show ?thesis using res r q by auto
qed

theorem FindAvailablePort_spec_witness:
  "MinInt64 \<le> 8765 \<and> 8765 \<le> MaxInt64 \<and> fst (FindAvailablePort world_two_busy 8765) = 8767
     \<and> fst (IsPortAvailable world_two_busy (fst (FindAvailablePort world_two_busy 8765)))"
proof -
  have a: "MinInt64 \<le> 8765" "8765 \<le> MaxInt64" by (simp_all add: MinInt64_def MaxInt64_def)
  have b: "fst (FindAvailablePort world_two_busy 8765) = 8767"
    by (simp add: FindAvailablePort_def wrap64_def FindAvailablePort_loop.simps IsPortAvailable_def
        net_Listen_def bind_target_def world_two_busy_def emit_def listener_Close_def)
  show ?thesis using a b FindAvailablePort_spec [OF a, of world_two_busy] by simp
qed

section \<open>Properties of the request builder\<close>


lemma ReplaceAll_append: "ReplaceAll (a @ b) c n = ReplaceAll a c n @ ReplaceAll b c n"
  by (simp add: ReplaceAll_def)

lemma ReplaceAll_concat: "ReplaceAll (concat xs) c n = concat (map (\<lambda>x. ReplaceAll x c n) xs)"
  by (induction xs) (simp_all add: ReplaceAll_append, simp add: ReplaceAll_def)

lemma upperhex_nth:
  "n < 16 \<Longrightarrow> upperhex ! n \<in> set ''0123456789ABCDEF''"
  unfolding upperhex_def using nth_mem[of n "''0123456789ABCDEF''"] by simp

lemma upperhex_not_plus: "n < 16 \<Longrightarrow> upperhex ! n \<noteq> CHR ''+''"
  using upperhex_nth[of n] by auto

lemma of_char_div16: "(of_char (c::char) :: nat) div 16 < 16"
proof -
  have "(of_char c :: nat) < 256" by (rule nat_of_char_less_256)
  then show ?thesis by linarith
qed

lemma shouldEscape_plus: "\<not> shouldEscape c \<Longrightarrow> c \<noteq> CHR ''+''"
  by (auto simp: shouldEscape_def less_eq_char_def)

lemma ReplaceAll_escape_byte:
  "ReplaceAll (escape_byte c) (CHR ''+'') ''%20'' =
     (if shouldEscape c
      then [CHR ''%'', upperhex ! (of_char c div 16), upperhex ! (of_char c mod 16)]
      else [c])"
proof (cases "shouldEscape c")
  case False
  then show ?thesis using shouldEscape_plus[of c] by (simp add: escape_byte_def ReplaceAll_def)
next
  case True
  show ?thesis
  proof (cases "c = CHR '' ''")
    case True
    then show ?thesis by (simp add: escape_byte_def ReplaceAll_def shouldEscape_def upperhex_def less_eq_char_def)
  next
    case False
    have "upperhex ! (of_char c div 16) \<noteq> CHR ''+''" "upperhex ! (of_char c mod 16) \<noteq> CHR ''+''"
      using upperhex_not_plus of_char_div16 by simp_all
    then show ?thesis using True False by (simp add: escape_byte_def ReplaceAll_def)
  qed
qed

lemma ReplaceAll_QueryEscape:
  "ReplaceAll (QueryEscape s) (CHR ''+'') ''%20'' = spec_percent_encode s"
  by (simp add: QueryEscape_def spec_percent_encode_def ReplaceAll_concat ReplaceAll_escape_byte
      comp_def)

lemma spec_percent_encode_no_plus: "CHR ''+'' \<notin> set (spec_percent_encode s)"
proof -
  have "\<And>c. CHR ''+'' \<notin> set (if shouldEscape c
      then [CHR ''%'', upperhex ! (of_char c div 16), upperhex ! (of_char c mod 16)] else [c])"
    using upperhex_not_plus of_char_div16 shouldEscape_plus by (simp, metis mod_less_divisor zero_less_numeral)
  then show ?thesis unfolding spec_percent_encode_def by (induction s) auto
qed


lemma update_fresh: "k \<notin> fst ` set al \<Longrightarrow> AList.update k v al = al @ [(k, v)]"
  by (induction al) auto

lemma Values_Add_fresh:
  "k \<notin> fst ` set acc \<Longrightarrow> Values_Add acc k v = acc @ [(k, [v])]"
  by (simp add: Values_Add_def Values_Get_def update_fresh map_of_eq_None_iff[THEN iffD2])

lemma fold_Values_Add:
  "distinct (map fst ps) \<Longrightarrow> fst ` set ps \<inter> fst ` set acc = {} \<Longrightarrow>
   fold (\<lambda>(key, value) v. Values_Add v key value) ps acc = acc @ map (\<lambda>(k, v). (k, [v])) ps"
proof (induction ps arbitrary: acc)
  case Nil
  then show ?case by simp
next
  case (Cons p ps)
  obtain k v where p: "p = (k, v)" by (cases p)
  have fresh: "k \<notin> fst ` set acc" using Cons.prems(2) p by auto
  have d: "distinct (map fst ps)" using Cons.prems(1) by simp
  have "fst ` set ps \<inter> fst ` set (acc @ [(k, [v])]) = {}"
    using Cons.prems p by (auto simp: image_iff)
  from Cons.IH[OF d this] show ?case using p fresh by (simp add: Values_Add_fresh)
qed

lemma Values_Get_singletons:
  "k \<in> fst ` set ps \<Longrightarrow> Values_Get (map (\<lambda>(k, v). (k, [v])) ps) k = [go_get ps k]"
  by (induction ps) (auto simp: Values_Get_def go_get_def)


lemma fold_pairs:
  "fold (\<lambda>k buf. (if 0 < length buf then buf @ ''&'' else buf) @ enc_pair ps k) ks buf =
     (if ks = [] then buf
      else (if buf = [] then [] else buf @ ''&'') @ spec_join (map (enc_pair ps) ks))"
proof (induction ks arbitrary: buf)
  case Nil
  then show ?case by simp
next
  case (Cons k ks)
  define buf' where "buf' = (if 0 < length buf then buf @ ''&'' else buf) @ enc_pair ps k"
  have ne: "buf' \<noteq> []" by (simp add: buf'_def enc_pair_def)
  have step: "fold (\<lambda>k buf. (if 0 < length buf then buf @ ''&'' else buf) @ enc_pair ps k) (k # ks) buf
      = fold (\<lambda>k buf. (if 0 < length buf then buf @ ''&'' else buf) @ enc_pair ps k) ks buf'"
    by (simp add: buf'_def)
  show ?case
  proof (cases ks)
    case Nil
    then show ?thesis by (simp add: buf'_def)
  next
    case (Cons k' ks')
    have "fold (\<lambda>k buf. (if 0 < length buf then buf @ ''&'' else buf) @ enc_pair ps k) ks buf'
        = buf' @ ''&'' @ spec_join (map (enc_pair ps) ks)"
      using Cons.IH[of buf'] ne Cons by simp
    then show ?thesis unfolding step using Cons by (simp add: buf'_def)
  qed
qed

lemma Values_Encode_singletons:
  "Values_Encode (map (\<lambda>(k, v). (k, [v])) ps) = spec_join (map (enc_pair ps) (sort (map fst ps)))"
proof (cases "ps = []")
  case True
  then show ?thesis by (simp add: Values_Encode_def)
next
  case False
  let ?V = "map (\<lambda>(k, v). (k, [v])) ps"
  have keys: "map fst ?V = map fst ps" by (simp add: comp_def case_prod_beta)
  have ne: "sort (map fst ps) \<noteq> []" using False by (metis length_sort length_map length_0_conv)
  have "fold (\<lambda>k buf. fold (\<lambda>val buf. (if 0 < length buf then buf @ ''&'' else buf)
                      @ QueryEscape k @ ''='' @ QueryEscape val) (Values_Get ?V k) buf)
             (sort (map fst ps)) [] =
        fold (\<lambda>k buf. (if 0 < length buf then buf @ ''&'' else buf) @ enc_pair ps k)
             (sort (map fst ps)) []"
  proof (rule fold_cong)
    fix k assume "k \<in> set (sort (map fst ps))"
    then have "k \<in> fst ` set ps" by simp
    then have "Values_Get ?V k = [go_get ps k]" by (rule Values_Get_singletons)
    then show "(\<lambda>buf. fold (\<lambda>val buf. (if 0 < length buf then buf @ ''&'' else buf)
                      @ QueryEscape k @ ''='' @ QueryEscape val) (Values_Get ?V k) buf)
             = (\<lambda>buf. (if 0 < length buf then buf @ ''&'' else buf) @ enc_pair ps k)"
      by (simp add: enc_pair_def)
  qed simp_all
  moreover have "Values_Encode ?V =
       fold (\<lambda>k buf. fold (\<lambda>val buf. (if 0 < length buf then buf @ ''&'' else buf)
                      @ QueryEscape k @ ''='' @ QueryEscape val) (Values_Get ?V k) buf)
             (sort (map fst ps)) []"
    unfolding Values_Encode_def keys using False by simp
  ultimately show ?thesis using ne by (simp only: fold_pairs) simp
qed

lemma ReplaceAll_Cons:
  "ReplaceAll (c # s) old new = (if c = old then new else [c]) @ ReplaceAll s old new"
  by (simp add: ReplaceAll_def)

lemma ReplaceAll_Nil: "ReplaceAll [] old new = []"
  by (simp add: ReplaceAll_def)

lemma ReplaceAll_spec_join:
  "ReplaceAll (spec_join xs) (CHR ''+'') n = spec_join (map (\<lambda>x. ReplaceAll x (CHR ''+'') n) xs)"
  by (induction xs rule: spec_join.induct) (simp_all add: ReplaceAll_append ReplaceAll_Cons ReplaceAll_Nil)

lemma EncodeParams_refines:
  assumes "distinct (map fst params)"
  shows "EncodeParams params = spec_query params"
proof -
  have "fold (\<lambda>(key, value) v. Values_Add v key value) params [] = map (\<lambda>(k, v). (k, [v])) params"
    using fold_Values_Add[OF assms, of "[]"] by simp
  then have "EncodeParams params =
      ReplaceAll (spec_join (map (enc_pair params) (sort (map fst params)))) (CHR ''+'') ''%20''"
    by (simp add: EncodeParams_def Values_Encode_singletons)
  also have "\<dots> = spec_query params"
    by (simp add: ReplaceAll_spec_join spec_query_def enc_pair_def ReplaceAll_append
        ReplaceAll_Cons ReplaceAll_QueryEscape comp_def)
  finally show ?thesis .
qed

lemma spec_join_no_plus:
  "\<forall>x \<in> set xs. CHR ''+'' \<notin> set x \<Longrightarrow> CHR ''+'' \<notin> set (spec_join xs)"
  by (induction xs rule: spec_join.induct) auto

lemma spec_query_no_plus: "CHR ''+'' \<notin> set (spec_query params)"
  unfolding spec_query_def by (rule spec_join_no_plus) (auto simp: spec_percent_encode_no_plus)


text \<open>
  Claim C4. For every parameter map, the query string of \<open>EncodeParams\<close> is the
  percent-encoding of its keys and values, pair by pair in key order: every byte that is
  not a letter, a digit or one of \<open>- _ . ~\<close> is written as \<open>%XX\<close>, a space as \<open>%20\<close>.
  The query string holds no \<open>+\<close> at all. The built URL is \<open>things:///\<close>, the action name as
  it is, and, when the query string is not empty, \<open>?\<close> and that percent-encoded query
  string; a \<open>+\<close> in the built URL can only come from the action name, which is not encoded.
\<close>

theorem EncodeParams_percent_encodes:
  assumes "distinct (map fst params)"
  shows "EncodeParams params = spec_query params
       \<and> spec_percent_encode '' '' = ''%20''
       \<and> CHR ''+'' \<notin> set (EncodeParams params)
       \<and> buildThingsURL action params =
           ''things:///'' @ action
             @ (if spec_query params = [] then [] else ''?'' @ spec_query params)
       \<and> filter (\<lambda>c. c = CHR ''+'') (buildThingsURL action params) = filter (\<lambda>c. c = CHR ''+'') action"
proof -
  have eq: "EncodeParams params = spec_query params" by (rule EncodeParams_refines[OF assms])
  have url: "buildThingsURL action params =
           ''things:///'' @ action
             @ (if spec_query params = [] then [] else ''?'' @ spec_query params)"
    by (simp add: buildThingsURL_def Let_def eq)
  have np: "CHR ''+'' \<notin> set (EncodeParams params)" by (simp add: eq spec_query_no_plus)
  have sp: "spec_percent_encode '' '' = ''%20''"
    by (simp add: spec_percent_encode_def shouldEscape_def upperhex_def less_eq_char_def)
  have "filter (\<lambda>c. c = CHR ''+'') (EncodeParams params) = []"
    using np by (auto simp: filter_empty_conv)
  then have "filter (\<lambda>c. c = CHR ''+'') (buildThingsURL action params) = filter (\<lambda>c. c = CHR ''+'') action"
    by (simp add: buildThingsURL_def Let_def)
  then show ?thesis using eq np sp url by simp
qed

lemma spec_query_example:
  "spec_query [(''title'', ''Buy milk & eggs''), (''list'', ''To+Do'')]
     = ''list=To%2BDo&title=Buy%20milk%20%26%20eggs''"
  by code_simp

theorem EncodeParams_percent_encodes_witness:
  "distinct (map fst [(''title'', ''Buy milk & eggs''), (''list'', ''To+Do'')])
   \<and> EncodeParams [(''title'', ''Buy milk & eggs''), (''list'', ''To+Do'')]
       = ''list=To%2BDo&title=Buy%20milk%20%26%20eggs''
   \<and> CHR ''+'' \<notin> set (EncodeParams [(''title'', ''Buy milk & eggs''), (''list'', ''To+Do'')])
   \<and> buildThingsURL ''add'' [(''title'', ''Buy milk & eggs''), (''list'', ''To+Do'')]
       = ''things:///add?list=To%2BDo&title=Buy%20milk%20%26%20eggs''"
proof -
  have d: "distinct (map fst [(''title'', ''Buy milk & eggs''), (''list'', ''To+Do'')])" by simp
  show ?thesis
    using d EncodeParams_percent_encodes [OF d, of "''add''"] spec_query_example by simp
qed

section \<open>Properties of the response normalizer\<close>


lemma fold_parts:
  "fold (\<lambda>part result. if TrimSpace part \<noteq> []
                         then result\<lparr>ThingsIDs := ThingsIDs result @ [TrimSpace part]\<rparr>
                         else result) parts (result :: ActionResult)
   = result\<lparr>ThingsIDs := ThingsIDs result @ filter (\<lambda>s. s \<noteq> []) (map TrimSpace parts)\<rparr>"
  by (induction parts arbitrary: result) (simp_all add: Let_def)

lemma fold_cleaned:
  "distinct (map fst cb) \<Longrightarrow>
   map_of (fold (\<lambda>(key, value) cleaned. if key = ''result'' then cleaned else go_set cleaned key value) cb acc) k
   = (if k \<noteq> ''result'' \<and> map_of cb k \<noteq> None then map_of cb k else map_of acc k)"
proof (induction cb arbitrary: acc)
  case Nil
  then show ?case by simp
next
  case (Cons p cb)
  obtain k0 v0 where p: "p = (k0, v0)" by (cases p)
  have d: "distinct (map fst cb)" and nk: "map_of cb k0 = None"
    using Cons.prems p by (auto simp: map_of_eq_None_iff)
  show ?case
    using Cons.IH[OF d] nk p by (auto simp: go_set_def update_conv')
qed

lemma Callback_NormalizeResponse:
  "Callback (NormalizeResponse u a cb) =
     (if length cb = 0 then None
      else Some (fold (\<lambda>(key, value) cleaned. if key = ''result'' then cleaned else go_set cleaned key value) cb []))"
  by (simp add: NormalizeResponse_def Let_def fold_parts split: option.splits)

text \<open>
  Claim C9. For every reply map, the key \<open>result\<close> is absent from the pass-through fields
  (\<open>Callback\<close>) of the normalized result, and every other key of the reply is there with
  its value unchanged.
\<close>

theorem NormalizeResponse_passthrough:
  assumes "distinct (map fst callback)"
  shows "(case Callback (NormalizeResponse unmarshal action callback) of
            None \<Rightarrow> None | Some m \<Rightarrow> map_of m k)
         = (if k = ''result'' then None else map_of callback k)"
proof (cases "callback = []")
  case True
  then show ?thesis by (simp add: Callback_NormalizeResponse)
next
  case False
  then show ?thesis using fold_cleaned[OF assms, of "[]" k]
    by (auto simp: Callback_NormalizeResponse)
qed

lemma ids_NormalizeResponse:
  assumes "Contains (go_get callback ''x-things-id'') '',''"
  shows "ThingsID (NormalizeResponse unmarshal action callback) = []"
    and "ThingsIDs (NormalizeResponse unmarshal action callback) =
          (if go_get callback ''x-things-ids'' \<noteq> [] then
             (case unmarshal (go_get callback ''x-things-ids'') of Some parsed \<Rightarrow> parsed | None \<Rightarrow> [])
           else [])
          @ filter (\<lambda>s. s \<noteq> []) (map TrimSpace (Split (go_get callback ''x-things-id'') (CHR '','')))"
proof -
  have ne: "go_get callback ''x-things-id'' \<noteq> []" using assms by (auto simp: Contains_def)
  then have cne: "callback \<noteq> []" by (auto simp: go_get_def)
  show "ThingsID (NormalizeResponse unmarshal action callback) = []"
    using ne cne assms by (simp add: NormalizeResponse_def Let_def fold_parts split: option.splits)
  show "ThingsIDs (NormalizeResponse unmarshal action callback) =
          (if go_get callback ''x-things-ids'' \<noteq> [] then
             (case unmarshal (go_get callback ''x-things-ids'') of Some parsed \<Rightarrow> parsed | None \<Rightarrow> [])
           else [])
          @ filter (\<lambda>s. s \<noteq> []) (map TrimSpace (Split (go_get callback ''x-things-id'') (CHR '','')))"
    using ne cne assms by (simp add: NormalizeResponse_def Let_def fold_parts split: option.splits)
qed


theorem NormalizeResponse_passthrough_witness:
  "distinct (map fst [(''result'', ''success''), (''x-things-id'', ''ABC-123'')])
   \<and> (case Callback (NormalizeResponse decode_plain_array ''add''
                       [(''result'', ''success''), (''x-things-id'', ''ABC-123'')]) of
          None \<Rightarrow> None | Some m \<Rightarrow> map_of m ''result'') = None
   \<and> (case Callback (NormalizeResponse decode_plain_array ''add''
                       [(''result'', ''success''), (''x-things-id'', ''ABC-123'')]) of
          None \<Rightarrow> None | Some m \<Rightarrow> map_of m ''x-things-id'') = Some ''ABC-123''"
proof -
  have d: "distinct (map fst [(''result'', ''success''), (''x-things-id'', ''ABC-123'')])" by simp
  show ?thesis
    using d NormalizeResponse_passthrough [OF d, where unmarshal = decode_plain_array and action = "''add''" and k = "''result''"]
      NormalizeResponse_passthrough [OF d, where unmarshal = decode_plain_array and action = "''add''" and k = "''x-things-id''"]
    by simp
qed

text \<open>
  The reply \<open>x-things-id=A, ,B\<close> has three separator-delimited segments that are not
  empty (\<open>A\<close>, a single space, \<open>B\<close>), and two identifiers are parsed from it: a segment of
  white space is dropped after trimming.
\<close>

theorem NormalizeResponse_count_counterexample:
  "Contains (go_get [(''x-things-id'', ''A, ,B'')] ''x-things-id'') '',''
   \<and> ThingsIDs (NormalizeResponse decode_plain_array ''add'' [(''x-things-id'', ''A, ,B'')]) = [''A'', ''B'']
   \<and> spec_nonempty_segments (go_get [(''x-things-id'', ''A, ,B'')] ''x-things-id'') = 3
   \<and> length (ThingsIDs (NormalizeResponse decode_plain_array ''add'' [(''x-things-id'', ''A, ,B'')]))
        \<noteq> spec_nonempty_segments (go_get [(''x-things-id'', ''A, ,B'')] ''x-things-id'')"
  by code_simp

text \<open>
  Claim C7, amended. For every reply map whose \<open>x-things-id\<close> field contains a comma,
  \<open>ThingsID\<close> stays unset and \<open>ThingsIDs\<close> is the list decoded from \<open>x-things-ids\<close> (empty
  when that field is absent or does not decode) followed, in order, by the segments of
  \<open>x-things-id\<close> with white space trimmed, leaving out the segments that are empty after
  trimming. When the reply has no \<open>x-things-ids\<close> field, the number of identifiers is the
  number of segments that are not empty after trimming.
\<close>

theorem NormalizeResponse_splits_single_id:
  assumes "Contains (go_get callback ''x-things-id'') '',''"
  shows "ThingsID (NormalizeResponse unmarshal action callback) = []
       \<and> ThingsIDs (NormalizeResponse unmarshal action callback) =
          (if go_get callback ''x-things-ids'' \<noteq> [] then
             (case unmarshal (go_get callback ''x-things-ids'') of Some parsed \<Rightarrow> parsed | None \<Rightarrow> [])
           else [])
          @ filter (\<lambda>s. s \<noteq> []) (map TrimSpace (Split (go_get callback ''x-things-id'') (CHR '','')))
       \<and> (go_get callback ''x-things-ids'' = [] \<longrightarrow>
            length (ThingsIDs (NormalizeResponse unmarshal action callback)) =
            length (filter (\<lambda>seg. TrimSpace seg \<noteq> []) (Split (go_get callback ''x-things-id'') (CHR '',''))))"
proof -
  have "length (filter (\<lambda>s. s \<noteq> []) (map TrimSpace xs)) = length (filter (\<lambda>seg. TrimSpace seg \<noteq> []) xs)" for xs
    by (induction xs) simp_all
  then show ?thesis using ids_NormalizeResponse[OF assms] by simp
qed

theorem NormalizeResponse_splits_single_id_witness:
  "Contains (go_get [(''x-things-ids'', [CHR ''['', CHR 0x22, CHR ''X'', CHR 0x22, CHR '']'']),
                     (''x-things-id'', ''A, ,B'')] ''x-things-id'') '',''
   \<and> ThingsID (NormalizeResponse decode_plain_array ''add''
        [(''x-things-ids'', [CHR ''['', CHR 0x22, CHR ''X'', CHR 0x22, CHR '']'']),
         (''x-things-id'', ''A, ,B'')]) = []
   \<and> ThingsIDs (NormalizeResponse decode_plain_array ''add''
        [(''x-things-ids'', [CHR ''['', CHR 0x22, CHR ''X'', CHR 0x22, CHR '']'']),
         (''x-things-id'', ''A, ,B'')]) = [''X'', ''A'', ''B'']"
proof -
  let ?cb = "[(''x-things-ids'', [CHR ''['', CHR 0x22, CHR ''X'', CHR 0x22, CHR '']'']),
              (''x-things-id'', ''A, ,B'')]"
  have h: "Contains (go_get ?cb ''x-things-id'') '',''" by code_simp
  have e: "(if go_get ?cb ''x-things-ids'' \<noteq> [] then
             (case decode_plain_array (go_get ?cb ''x-things-ids'') of Some parsed \<Rightarrow> parsed | None \<Rightarrow> [])
           else [])
          @ filter (\<lambda>s. s \<noteq> []) (map TrimSpace (Split (go_get ?cb ''x-things-id'') (CHR '','')))
          = [''X'', ''A'', ''B'']" by code_simp
  from NormalizeResponse_splits_single_id [OF h, where unmarshal = decode_plain_array and action = "''add''"]
  have "ThingsID (NormalizeResponse decode_plain_array ''add'' ?cb) = []"
    and "ThingsIDs (NormalizeResponse decode_plain_array ''add'' ?cb) = [''X'', ''A'', ''B'']"
    unfolding e by blast+
  then show ?thesis using h by blast
qed

section \<open>Properties of the callback receiver\<close>

lemma Start_unstarted:
  "\<not> started s \<Longrightarrow>
   Start s w = (None,
     s\<lparr>server := Some (''localhost:'' @ Itoa (Port s)), listener := bind_target w (Port s),
       started := True\<rparr>,
     (case bind_target w (Port s) of
        None \<Rightarrow> emit (EvListen (Port s)) (emit (EvStart (Port s)) w)
      | Some q \<Rightarrow> (emit (EvListen (Port s)) (emit (EvStart (Port s)) w))\<lparr>busy := insert q (busy w)\<rparr>))"
  by (simp add: Start_def net_Listen_def Let_def bind_target_def emit_def split: option.splits)

text \<open>
  Claim C1. The claim is that \<open>Start\<close> returns an error when the bind fails. The code does
  not: on a server that was not started, with port 8765 held by another process, the
  goroutine's \<open>net.Listen\<close> fails, and \<open>Start\<close> still returns \<open>nil\<close> and marks the server
  started, with no listener behind it.
\<close>

theorem Start_bind_failure_returns_nil:
  "bind_target world_two_busy 8765 = None
   \<and> \<not> started (NewCallbackServer 8765)
   \<and> fst (Start (NewCallbackServer 8765) world_two_busy) = None
   \<and> started (fst (snd (Start (NewCallbackServer 8765) world_two_busy)))
   \<and> listener (fst (snd (Start (NewCallbackServer 8765) world_two_busy))) = None"
  by (simp add: Start_def net_Listen_def Let_def bind_target_def emit_def NewCallbackServer_def
      world_two_busy_def)

lemma Contains_at: "i \<le> length s \<Longrightarrow> take (length sub) (drop i s) = sub \<Longrightarrow> Contains s sub"
  unfolding Contains_def list_ex_iff by (rule bexI[of _ i]) auto

lemma success_page_length: "length success_page = 911"
  by code_simp

lemma success_page_at:
  "take (length ''Things CLI callback received. You can close this tab.'') (drop 633 success_page)
     = ''Things CLI callback received. You can close this tab.''"
  by code_simp

lemma success_page_text:
  "Contains success_page ''Things CLI callback received. You can close this tab.''"
  by (rule Contains_at[of 633]) (simp add: success_page_length, rule success_page_at)

text \<open>
  Claim C6. For every server, a callback that arrives while the slot holds an earlier
  reply is answered with 500, the server is left as it was, and \<open>WaitForResponse\<close> returns
  the earlier reply; a callback that arrives at an empty slot is answered with 200 and the
  confirmation page, its parameters fill the slot, a second callback is then answered
  with 500, and \<open>WaitForResponse\<close> returns the parameters of the first. The page is 911
  bytes long and contains the sentence that tells the user the callback was received.
\<close>

theorem handler_single_slot:
  "(response s = Some earlier \<longrightarrow>
      status (fst (handler s r)) = 500
      \<and> body (fst (handler s r)) = ''Failed to process response''
      \<and> snd (handler s r) = s
      \<and> fst (WaitForResponse (snd (handler s r)) t) = Inr earlier)
   \<and> (response s = None \<longrightarrow>
      status (fst (handler s r)) = 200
      \<and> body (fst (handler s r)) = success_page
      \<and> response (snd (handler s r)) = Some (callback_params (rquery r))
      \<and> status (fst (handler (snd (handler s r)) r2)) = 500
      \<and> fst (WaitForResponse (snd (handler (snd (handler s r)) r2)) t)
          = Inr (callback_params (rquery r)))
   \<and> Contains success_page ''Things CLI callback received. You can close this tab.''
   \<and> length success_page = 911"
  using success_page_text success_page_length
  by (simp add: handler_def WaitForResponse_def Let_def split: option.splits)

theorem handler_single_slot_witness:
  "response (NewCallbackServer 8765) = None
   \<and> status (fst (handler (NewCallbackServer 8765) request_first)) = 200
   \<and> response (snd (handler (NewCallbackServer 8765) request_first))
       = Some [(''result'', ''success''), (''x-things-id'', ''ABC-123'')]
   \<and> status (fst (handler (snd (handler (NewCallbackServer 8765) request_first)) request_second)) = 500
   \<and> fst (WaitForResponse
            (snd (handler (snd (handler (NewCallbackServer 8765) request_first)) request_second)) 10)
       = Inr [(''result'', ''success''), (''x-things-id'', ''ABC-123'')]
   \<and> response (snd (handler (NewCallbackServer 8765) request_first))
       = Some [(''result'', ''success''), (''x-things-id'', ''ABC-123'')]
   \<and> snd (handler (snd (handler (NewCallbackServer 8765) request_first)) request_second)
       = snd (handler (NewCallbackServer 8765) request_first)"
proof -
  have e: "response (NewCallbackServer 8765) = None" by (simp add: NewCallbackServer_def)
  have p: "callback_params (rquery request_first)
             = [(''result'', ''success''), (''x-things-id'', ''ABC-123'')]"
    by (simp add: callback_params_def request_first_def go_set_def)
  have o: "response (snd (handler (NewCallbackServer 8765) request_first))
       = Some [(''result'', ''success''), (''x-things-id'', ''ABC-123'')]"
    using e p handler_single_slot [of "NewCallbackServer 8765" _ request_first] by simp
  show ?thesis
    using e p o
      handler_single_slot [of "NewCallbackServer 8765" _ request_first _ request_second]
      handler_single_slot [of "snd (handler (NewCallbackServer 8765) request_first)"
        "[(''result'', ''success''), (''x-things-id'', ''ABC-123'')]" request_second]
    by simp
qed

section \<open>Properties of the dispatcher\<close>

lemma probes_only_refl: "probes_only w w"
  by (simp add: probes_only_def)

lemma probes_only_log:
  "probes_only w w' \<Longrightarrow> \<exists>pre. log w' = log w @ pre \<and> list_all probe_event pre"
  unfolding probes_only_def by (metis append_take_drop_id)

lemma probes_onlyI:
  "busy w' = busy w \<Longrightarrow> ephemeral w' = ephemeral w \<Longrightarrow> open_error w' = open_error w \<Longrightarrow>
   replies w' = replies w \<Longrightarrow> shutdown_expires w' = shutdown_expires w \<Longrightarrow>
   log w' = log w @ pre \<Longrightarrow> list_all probe_event pre \<Longrightarrow> probes_only w w'"
  by (simp add: probes_only_def)

lemma probes_only_trans:
  assumes "probes_only w w1" "probes_only w1 w2"
  shows "probes_only w w2"
proof -
  obtain p1 where p1: "log w1 = log w @ p1" "list_all probe_event p1"
    using probes_only_log[OF assms(1)] by blast
  obtain p2 where p2: "log w2 = log w1 @ p2" "list_all probe_event p2"
    using probes_only_log[OF assms(2)] by blast
  show ?thesis
    by (rule probes_onlyI[where pre = "p1 @ p2"])
       (use assms p1 p2 in \<open>simp_all add: probes_only_def\<close>)
qed

lemma probes_only_IsPortAvailable: "probes_only w (snd (IsPortAvailable w p))"
proof (cases "bind_target w p")
  case None
  show ?thesis
    by (rule probes_onlyI[where pre = "[EvListen p]"])
       (simp_all add: IsPortAvailable_eq None emit_def probe_event_def)
next
  case (Some q)
  show ?thesis
    by (rule probes_onlyI[where pre = "[EvListen p, EvClose q]"])
       (simp_all add: IsPortAvailable_eq Some emit_def probe_event_def)
qed

lemma probes_only_loop: "probes_only w (snd (FindAvailablePort_loop w bound port))"
proof (induction w bound port rule: FindAvailablePort_loop.induct)
  case (1 w bound port)
  show ?case
  proof (cases "port < bound")
    case False
    then show ?thesis by (simp add: FindAvailablePort_loop.simps probes_only_refl)
  next
    case True
    obtain b w1 where pw: "IsPortAvailable w port = (b, w1)" by (cases "IsPortAvailable w port")
    have p1: "probes_only w w1" using probes_only_IsPortAvailable[of w port] pw by simp
    show ?thesis
    proof (cases b)
      case True
      then show ?thesis using \<open>port < bound\<close> pw p1
        by (subst FindAvailablePort_loop.simps) simp
    next
      case False
      have "probes_only w1 (snd (FindAvailablePort_loop w1 bound (port + 1)))"
        using 1[OF True pw[symmetric]] False by simp
      then have "probes_only w (snd (FindAvailablePort_loop w1 bound (port + 1)))"
        using p1 probes_only_trans by blast
      then show ?thesis using True pw False
        by (subst FindAvailablePort_loop.simps) simp
    qed
  qed
qed

lemma probes_only_FindAvailablePort: "probes_only w (snd (FindAvailablePort w p))"
  by (simp add: FindAvailablePort_def probes_only_loop)


lemma probes_only_bind_target: "probes_only w w' \<Longrightarrow> bind_target w' = bind_target w"
proof (rule ext)
  fix q
  assume "probes_only w w'"
  then have "busy w' = busy w" "ephemeral w' = ephemeral w" by (simp_all add: probes_only_def)
  then show "bind_target w' q = bind_target w q" by (rule bind_target_cong)
qed

lemma loop_sound:
  "fst (FindAvailablePort_loop w bound port) \<noteq> - 1 \<Longrightarrow>
   bind_target w (fst (FindAvailablePort_loop w bound port)) \<noteq> None"
proof (induction w bound port rule: FindAvailablePort_loop.induct)
  case (1 w bound port)
  show ?case
  proof (cases "port < bound")
    case False
    then show ?thesis using 1(2) by (simp add: FindAvailablePort_loop.simps)
  next
    case True
    obtain b w1 where pw: "IsPortAvailable w port = (b, w1)" by (cases "IsPortAvailable w port")
    have p1: "probes_only w w1" using probes_only_IsPortAvailable[of w port] pw by simp
    have bt: "bind_target w1 = bind_target w"
      using p1 by (rule probes_only_bind_target)
    show ?thesis
    proof (cases b)
      case True
      have r: "fst (FindAvailablePort_loop w bound port) = port"
        using \<open>port < bound\<close> pw True by (subst FindAvailablePort_loop.simps) simp
      have "bind_target w port \<noteq> None" using pw True by (simp add: IsPortAvailable_eq)
      then show ?thesis using r by simp
    next
      case False
      have r: "FindAvailablePort_loop w bound port = FindAvailablePort_loop w1 bound (port + 1)"
        using True pw False by (subst FindAvailablePort_loop.simps) simp
      show ?thesis using 1(1)[OF True pw[symmetric]] False 1(2) r bt by simp
    qed
  qed
qed

lemma reserve_port:
  assumes "(case IsPortAvailable w p of
              (True, w1) \<Rightarrow> (Inr p, w1)
            | (False, w1) \<Rightarrow>
                (case FindAvailablePort w1 (wrap64 (p + 1)) of
                   (alt, w2) \<Rightarrow>
                     if alt < 0 then (Inl ErrNoCallbackPort, w2) else (Inr alt, w2))) = (r, w2)"
  shows "probes_only w w2 \<and> (\<forall>e. r = Inl e \<longrightarrow> e = ErrNoCallbackPort)
         \<and> (\<forall>port. r = Inr port \<longrightarrow> bind_target w2 port \<noteq> None)"
proof -
  obtain b w1 where pw: "IsPortAvailable w p = (b, w1)" by (cases "IsPortAvailable w p")
  have p1: "probes_only w w1" using probes_only_IsPortAvailable[of w p] pw by simp
  have bt: "bind_target w1 = bind_target w"
    using p1 by (rule probes_only_bind_target)
  show ?thesis
  proof (cases b)
    case True
    then have "r = Inr p" "w2 = w1" using assms pw by auto
    moreover have "bind_target w p \<noteq> None" using pw True by (simp add: IsPortAvailable_eq)
    ultimately show ?thesis using p1 bt by simp
  next
    case False
    obtain alt w2' where fa: "FindAvailablePort w1 (wrap64 (p + 1)) = (alt, w2')"
      by (cases "FindAvailablePort w1 (wrap64 (p + 1))")
    have p2: "probes_only w1 w2'" using probes_only_FindAvailablePort[of w1 "wrap64 (p + 1)"] fa by simp
    have p12: "probes_only w w2'" using p1 p2 probes_only_trans by blast
    have bt2: "bind_target w2' = bind_target w1"
      using p2 by (rule probes_only_bind_target)
    have w2: "w2 = w2'" and r: "r = (if alt < 0 then Inl ErrNoCallbackPort else Inr alt)"
      using assms pw False fa by (auto split: if_splits)
    have "\<not> alt < 0 \<Longrightarrow> bind_target w1 alt \<noteq> None"
      using loop_sound[of w1 "wrap64 (wrap64 (p + 1) + 100)" "wrap64 (p + 1)"] fa
      by (simp add: FindAvailablePort_def)
    then show ?thesis using w2 r p12 bt2 by auto
  qed
qed

lemma bind_target_Some: "bind_target w p = Some q \<Longrightarrow> q \<notin> busy w"
  by (auto simp: bind_target_def split: if_splits option.splits)

lemma Start_fresh:
  "Start (NewCallbackServer port) w = (None,
     \<lparr>Port = port, server = Some (''localhost:'' @ Itoa port), response = None, started = True,
      listener = bind_target w port\<rparr>,
     (case bind_target w port of
        None \<Rightarrow> emit (EvListen port) (emit (EvStart port) w)
      | Some q \<Rightarrow> (emit (EvListen port) (emit (EvStart port) w))\<lparr>busy := insert q (busy w)\<rparr>))"
  by (simp add: Start_def net_Listen_def Let_def bind_target_def emit_def NewCallbackServer_def
      split: option.splits)

lemma serve_all_frame:
  "Port (serve_all s rs) = Port s \<and> server (serve_all s rs) = server s
   \<and> started (serve_all s rs) = started s \<and> listener (serve_all s rs) = listener s"
  unfolding serve_all_def
  by (induction rs arbitrary: s)
     (simp_all add: serve_def handler_def Let_def split: option.splits prod.splits)

lemma serve_all_silent:
  "response s = None \<Longrightarrow> \<forall>r \<in> set rs. listener s \<noteq> Some (rport r) \<Longrightarrow>
   response (serve_all s rs) = None"
  unfolding serve_all_def
  by (induction rs arbitrary: s) (simp_all add: serve_def)

lemma Execute_deferred_frame:
  assumes "Execute_deferred c action params s w = (ret, s1, w1)"
  shows "w1 = emit (EvOpen (buildThingsURL action params)) w \<and> Port s1 = Port s
         \<and> server s1 = server s \<and> started s1 = started s \<and> listener s1 = listener s"
proof -
  let ?url = "buildThingsURL action params"
  let ?s' = "serve_all s (replies w ?url)"
  have fr: "Port ?s' = Port s" "server ?s' = server s" "started ?s' = started s"
      "listener ?s' = listener s"
    using serve_all_frame[of s "replies w ?url"] by simp_all
  show ?thesis
  proof (cases "open_error w ?url")
    case (Some e)
    then show ?thesis using assms by (simp add: Execute_deferred_def Let_def)
  next
    case None
    show ?thesis
    proof (cases "response ?s'")
      case None
      then show ?thesis using assms \<open>open_error w ?url = None\<close> fr
        by (auto simp: Execute_deferred_def Let_def WaitForResponse_def)
    next
      case (Some reply)
      then show ?thesis using assms \<open>open_error w ?url = None\<close> fr
        by (auto simp: Execute_deferred_def Let_def WaitForResponse_def split: if_splits)
    qed
  qed
qed

lemma Stop_started:
  "started s \<Longrightarrow> server s \<noteq> None \<Longrightarrow> listener s = Some q \<Longrightarrow>
   snd (snd (Stop s w)) = (emit (EvClose q) (emit (EvStop (Port s)) w))\<lparr>busy := busy w - {q}\<rparr>"
  by (cases "server s") (simp_all add: Stop_def Let_def listener_Close_def emit_def)

lemma Execute_after_reserve:
  assumes "bind_target w2 port = Some q"
  shows "Execute_with_server c action params (NewCallbackServer port) w2
       = (fst (Execute_deferred c action params
                 \<lparr>Port = port, server = Some (''localhost:'' @ Itoa port), response = None,
                  started = True, listener = Some q\<rparr>
                 ((emit (EvListen port) (emit (EvStart port) w2))\<lparr>busy := insert q (busy w2)\<rparr>)),
          (emit (EvClose q) (emit (EvStop port) (emit (EvOpen (buildThingsURL action params))
              ((emit (EvListen port) (emit (EvStart port) w2))\<lparr>busy := insert q (busy w2)\<rparr>))))
            \<lparr>busy := busy w2\<rparr>)"
proof -
  let ?S = "\<lparr>Port = port, server = Some (''localhost:'' @ Itoa port), response = None,
             started = True, listener = Some q\<rparr>"
  let ?W3 = "(emit (EvListen port) (emit (EvStart port) w2))\<lparr>busy := insert q (busy w2)\<rparr>"
  have st: "Start (NewCallbackServer port) w2 = (None, ?S, ?W3)"
    using assms by (simp add: Start_fresh)
  obtain ret s1 w4 where d: "Execute_deferred c action params ?S ?W3 = (ret, s1, w4)"
    by (cases "Execute_deferred c action params ?S ?W3")
  have fr: "w4 = emit (EvOpen (buildThingsURL action params)) ?W3" "Port s1 = port"
      "server s1 \<noteq> None" "started s1" "listener s1 = Some q"
    using Execute_deferred_frame[OF d] by simp_all
  have nb: "q \<notin> busy w2" using assms by (rule bind_target_Some)
  obtain e2 s2 w5 where stp: "Stop s1 w4 = (e2, s2, w5)" by (cases "Stop s1 w4") auto
  have "w5 = (emit (EvClose q) (emit (EvStop port) w4))\<lparr>busy := busy w4 - {q}\<rparr>"
    using Stop_started[OF fr(4) fr(3) fr(5), of w4] fr(2) stp by simp
  moreover have "busy w4 - {q} = busy w2" using fr(1) nb by (simp add: emit_def)
  ultimately have w5: "w5 = (emit (EvClose q) (emit (EvStop port)
       (emit (EvOpen (buildThingsURL action params)) ?W3)))\<lparr>busy := busy w2\<rparr>"
    using fr(1) by simp
  have "Execute_with_server c action params (NewCallbackServer port) w2 = (ret, w5)"
    by (simp only: Execute_with_server_def st d stp prod.case option.case)
  then show ?thesis unfolding d w5 by simp
qed


lemma Execute_outcomes:
  assumes "Execute c action params0 opts w = ((resp, err), w')"
  shows "(resp = None \<and> err = Some ErrAuthTokenRequired \<and> w' = w \<and> RequiresAuth opts
          \<and> AuthToken c = []
          \<and> go_get (case params0 of None \<Rightarrow> [] | Some m \<Rightarrow> m) ''auth-token'' = [])
       \<or> (resp = None \<and> err = Some ErrNoCallbackPort \<and> probes_only w w')
       \<or> (\<exists>params port q w2. probes_only w w2 \<and> bind_target w2 port = Some q
            \<and> (resp, err) = fst (Execute_deferred c action params
                 \<lparr>Port = port, server = Some (''localhost:'' @ Itoa port), response = None,
                  started = True, listener = Some q\<rparr>
                 ((emit (EvListen port) (emit (EvStart port) w2))\<lparr>busy := insert q (busy w2)\<rparr>))
            \<and> w' = (emit (EvClose q) (emit (EvStop port) (emit (EvOpen (buildThingsURL action params))
              ((emit (EvListen port) (emit (EvStart port) w2))\<lparr>busy := insert q (busy w2)\<rparr>))))
            \<lparr>busy := busy w2\<rparr>)"
proof -
  define p0 where "p0 = (case params0 of None \<Rightarrow> [] | Some m \<Rightarrow> m)"
  define A where "A = (if go_get p0 ''auth-token'' = [] \<and> (RequiresAuth opts \<or> UseAuthIfAvailable opts)
               then (if AuthToken c \<noteq> [] then Inr (go_set p0 ''auth-token'' (AuthToken c))
                     else if RequiresAuth opts then Inl ErrAuthTokenRequired
                     else Inr p0)
               else Inr p0)"
  define R where "R = (case IsPortAvailable w (CallbackPort c) of
                      (True, w1) \<Rightarrow> (Inr (CallbackPort c), w1)
                    | (False, w1) \<Rightarrow>
                        (case FindAvailablePort w1 (wrap64 (CallbackPort c + 1)) of
                           (alt, w2) \<Rightarrow>
                             if alt < 0 then (Inl ErrNoCallbackPort, w2) else (Inr alt, w2)))"
  have E: "Execute c action params0 opts w =
     (case A of
           Inl err \<Rightarrow> ((None, Some err), w)
         | Inr params \<Rightarrow>
             (case R of
                (Inl err, w2) \<Rightarrow> ((None, Some err), w2)
              | (Inr port, w2) \<Rightarrow>
                  Execute_with_server c action
                              (go_set (go_set params ''x-success''
                                 (''http://localhost:'' @ Itoa port @ ''/callback?result=success''))
                                 ''x-error''
                                 (''http://localhost:'' @ Itoa port @ ''/callback?result=error''))
                              (NewCallbackServer port) w2))"
    unfolding Execute_def Let_def A_def R_def p0_def ..
  show ?thesis
  proof (cases A)
    case (Inl e)
    then have "e = ErrAuthTokenRequired \<and> RequiresAuth opts \<and> AuthToken c = []
        \<and> go_get p0 ''auth-token'' = []"
      by (auto simp: A_def split: if_splits)
    then show ?thesis using assms E Inl by (simp add: p0_def)
  next
    case (Inr params)
    obtain r w2 where R2: "R = (r, w2)" by (cases R)
    have rp: "probes_only w w2" "\<forall>e. r = Inl e \<longrightarrow> e = ErrNoCallbackPort"
        "\<forall>port. r = Inr port \<longrightarrow> bind_target w2 port \<noteq> None"
      using reserve_port[where w = w and p = "CallbackPort c" and r = r and ?w2.0 = w2] R2 unfolding R_def by blast+
    show ?thesis
    proof (cases r)
      case (Inl e)
      then have "e = ErrNoCallbackPort" using rp(2) by blast
      then show ?thesis using assms E Inr R2 Inl rp(1) by simp
    next
      case r: (Inr port)
      then obtain q where q: "bind_target w2 port = Some q" using rp(3) by blast
      let ?params = "go_set (go_set params ''x-success''
                                 (''http://localhost:'' @ Itoa port @ ''/callback?result=success''))
                                 ''x-error''
                                 (''http://localhost:'' @ Itoa port @ ''/callback?result=error'')"
      have "Execute c action params0 opts w =
         (fst (Execute_deferred c action ?params
                 \<lparr>Port = port, server = Some (''localhost:'' @ Itoa port), response = None,
                  started = True, listener = Some q\<rparr>
                 ((emit (EvListen port) (emit (EvStart port) w2))\<lparr>busy := insert q (busy w2)\<rparr>)),
          (emit (EvClose q) (emit (EvStop port) (emit (EvOpen (buildThingsURL action ?params))
              ((emit (EvListen port) (emit (EvStart port) w2))\<lparr>busy := insert q (busy w2)\<rparr>))))
            \<lparr>busy := busy w2\<rparr>)"
        unfolding E using Inr R2 r Execute_after_reserve[OF q, where c = c and action = action and params = ?params] by simp
      then show ?thesis using assms rp(1) q by (intro disjI2 exI[of _ ?params] exI[of _ port] exI[of _ q] exI[of _ w2]) simp
    qed
  qed
qed

lemma Execute_deferred_result:
  "fst (Execute_deferred c action params s w) =
     (case open_error w (buildThingsURL action params) of
        Some e \<Rightarrow> (None, Some (ErrExecuteURL e))
      | None \<Rightarrow>
          (case response (serve_all s (replies w (buildThingsURL action params))) of
             None \<Rightarrow> (None, Some (ErrCallbackTimeout (timeout c)))
           | Some reply \<Rightarrow>
               if go_get reply ''result'' = ''error''
               then (Some reply,
                     Some (CallbackError (go_get reply ''errorCode'')
                            (if go_get reply ''errorMessage'' = [] then ''Things returned an error''
                             else go_get reply ''errorMessage'') reply))
               else (Some reply, None)))"
  by (simp add: Execute_deferred_def Let_def WaitForResponse_def split: option.splits)


text \<open>
  Claim C3. The credential of a client is the environment variable when it is set and the
  stored configuration otherwise. For every call with \<open>RequiresAuth\<close> set, no \<open>auth-token\<close>
  parameter, no environment variable and no stored credential, \<open>Execute\<close> returns the
  authentication-missing error and leaves the world as it was: no port probed or bound,
  no receiver started, no URL launched, nothing logged. With a parameter or a client
  credential, or without \<open>RequiresAuth\<close>, that error is not returned.
\<close>

theorem Execute_auth_missing:
  "AuthToken (NewClient e) =
     (if getenv e ''THINGS_AUTH_TOKEN'' \<noteq> [] then getenv e ''THINGS_AUTH_TOKEN''
      else (case config_file e of Stored config \<Rightarrow> cfg_AuthToken config | _ \<Rightarrow> []))
   \<and> (RequiresAuth opts
        \<and> go_get (case params0 of None \<Rightarrow> [] | Some m \<Rightarrow> m) ''auth-token'' = []
        \<and> getenv e ''THINGS_AUTH_TOKEN'' = []
        \<and> (case config_file e of Stored config \<Rightarrow> cfg_AuthToken config = [] | _ \<Rightarrow> True)
      \<longrightarrow> Execute (NewClient e) action params0 opts w = ((None, Some ErrAuthTokenRequired), w))
   \<and> (go_get (case params0 of None \<Rightarrow> [] | Some m \<Rightarrow> m) ''auth-token'' \<noteq> []
        \<or> AuthToken c \<noteq> [] \<or> \<not> RequiresAuth opts
      \<longrightarrow> snd (fst (Execute c action params0 opts w)) \<noteq> Some ErrAuthTokenRequired)"
proof -
  have tok: "AuthToken (NewClient e) =
     (if getenv e ''THINGS_AUTH_TOKEN'' \<noteq> [] then getenv e ''THINGS_AUTH_TOKEN''
      else (case config_file e of Stored config \<Rightarrow> cfg_AuthToken config | _ \<Rightarrow> []))"
    by (simp add: NewClient_def GetAuthToken_def LoadConfig_def DefaultConfig_def Let_def
        split: config_file.splits)
  have a: "Execute (NewClient e) action params0 opts w = ((None, Some ErrAuthTokenRequired), w)"
    if "RequiresAuth opts"
      "go_get (case params0 of None \<Rightarrow> [] | Some m \<Rightarrow> m) ''auth-token'' = []"
      "getenv e ''THINGS_AUTH_TOKEN'' = []"
      "case config_file e of Stored config \<Rightarrow> cfg_AuthToken config = [] | _ \<Rightarrow> True"
  proof -
    have "AuthToken (NewClient e) = []" using that(3,4) tok by (simp split: config_file.splits)
    then show ?thesis using that(1,2) by (simp add: Execute_def Let_def)
  qed
  have b: "snd (fst (Execute c action params0 opts w)) \<noteq> Some ErrAuthTokenRequired"
    if h: "go_get (case params0 of None \<Rightarrow> [] | Some m \<Rightarrow> m) ''auth-token'' \<noteq> []
        \<or> AuthToken c \<noteq> [] \<or> \<not> RequiresAuth opts"
  proof -
    obtain resp err w' where E: "Execute c action params0 opts w = ((resp, err), w')"
      by (cases "Execute c action params0 opts w") auto
    have "err \<noteq> Some ErrAuthTokenRequired"
      using Execute_outcomes[OF E] h
      by (auto simp: Execute_deferred_result split: option.splits if_splits)
    then show ?thesis using E by simp
  qed
  show ?thesis using tok a b by blast
qed


theorem Execute_auth_missing_witness:
  "RequiresAuth opts_auth
   \<and> go_get (case None of None \<Rightarrow> [] | Some m \<Rightarrow> m) ''auth-token'' = []
   \<and> getenv environ_empty ''THINGS_AUTH_TOKEN'' = []
   \<and> (case config_file environ_empty of Stored config \<Rightarrow> cfg_AuthToken config = [] | _ \<Rightarrow> True)
   \<and> Execute (NewClient environ_empty) ''add'' None opts_auth world_two_busy
       = ((None, Some ErrAuthTokenRequired), world_two_busy)
   \<and> AuthToken (NewClient environ_both) = ''from-env''"
  using Execute_auth_missing [where e = environ_empty and opts = opts_auth and ?params0.0 = None
      and action = "''add''" and w = world_two_busy and c = client_default]
    Execute_auth_missing [where e = environ_both and opts = opts_auth and ?params0.0 = None
      and action = "''add''" and w = world_two_busy and c = client_default]
  by (simp add: opts_auth_def environ_empty_def environ_both_def go_get_def)

lemmas run_defs = Execute_def Execute_with_server_def Let_def go_get_def go_set_def IsPortAvailable_def net_Listen_def
  bind_target_def emit_def listener_Close_def NewCallbackServer_def Start_def Stop_def
  Execute_deferred_def WaitForResponse_def serve_all_def serve_def handler_def
  callback_params_def client_default_def opts_none_def



lemma Execute_timeout_example:
  "fst (Execute client_default ''add'' None opts_none world_two_busy)
     = (None, Some (ErrCallbackTimeout 10000000000))"
  by (simp add: run_defs world_two_busy_def FindAvailablePort_def wrap64_def
      FindAvailablePort_loop.simps)

lemma Execute_timeout_world:
  "busy (snd (Execute client_default ''add'' None opts_none world_two_busy)) = {8765, 8766}
   \<and> log (snd (Execute client_default ''add'' None opts_none world_two_busy))
     = [EvListen 8765, EvListen 8766, EvListen 8767, EvClose 8767, EvStart 8767, EvListen 8767,
        EvOpen (buildThingsURL ''add''
          [(''x-success'', ''http://localhost:'' @ Itoa 8767 @ ''/callback?result=success''),
           (''x-error'', ''http://localhost:'' @ Itoa 8767 @ ''/callback?result=error'')]),
        EvStop 8767, EvClose 8767]"
  by (simp add: run_defs world_two_busy_def FindAvailablePort_def wrap64_def
      FindAvailablePort_loop.simps)








lemma EvStart_not_probe: "list_all probe_event pre \<Longrightarrow> EvStart port \<notin> set pre"
  by (auto simp: list_all_iff probe_event_def)

text \<open>
  Claim C5. For every \<open>Execute\<close> cycle that starts the callback receiver on a port: after
  the probes, the log of the cycle is the start of the receiver, its bind, the launch of
  the URL, the stop of the receiver and the release of its listener, in this order and
  whatever the outcome; the set of bound ports is afterwards what it was before, and the
  reserved port is available again. When the launch succeeds and no callback reaches the
  listener, the cycle returns no map and the callback timeout error.
\<close>

theorem Execute_stops_receiver:
  assumes "Execute c action params0 opts w = ((resp, err), w')"
      and "EvStart port \<in> set (drop (length (log w)) (log w'))"
  shows "\<exists>pre url q.
           log w' = log w @ pre @ [EvStart port, EvListen port, EvOpen url, EvStop port, EvClose q]
         \<and> list_all probe_event pre
         \<and> busy w' = busy w
         \<and> fst (IsPortAvailable w' port)
         \<and> (open_error w url = None \<and> (\<forall>r \<in> set (replies w url). rport r \<noteq> q)
              \<longrightarrow> resp = None \<and> err = Some (ErrCallbackTimeout (timeout c)))"
  using Execute_outcomes[OF assms(1)]
proof (elim disjE exE conjE)
  assume "w' = w"
  then show ?thesis using assms(2) by simp
next
  assume "probes_only w w'"
  then have "list_all probe_event (drop (length (log w)) (log w'))" by (simp add: probes_only_def)
  then show ?thesis using assms(2) EvStart_not_probe by blast
next
  fix params port' q w2
  let ?S = "\<lparr>Port = port', server = Some (''localhost:'' @ Itoa port'), response = None,
                  started = True, listener = Some q\<rparr>"
  let ?W3 = "(emit (EvListen port') (emit (EvStart port') w2))\<lparr>busy := insert q (busy w2)\<rparr>"
  let ?url = "buildThingsURL action params"
  assume po: "probes_only w w2" and bt: "bind_target w2 port' = Some q"
    and re: "(resp, err) = fst (Execute_deferred c action params ?S ?W3)"
    and w': "w' = (emit (EvClose q) (emit (EvStop port') (emit (EvOpen ?url) ?W3)))\<lparr>busy := busy w2\<rparr>"
  obtain pre where pre: "log w2 = log w @ pre" "list_all probe_event pre"
    using probes_only_log[OF po] by blast
  have lg: "log w' = log w @ pre @ [EvStart port', EvListen port', EvOpen ?url, EvStop port', EvClose q]"
    using w' pre(1) by (simp add: emit_def)
  have "EvStart port \<in> set (pre @ [EvStart port', EvListen port', EvOpen ?url, EvStop port', EvClose q])"
    using assms(2) lg by simp
  then have pp: "port = port'" using EvStart_not_probe[OF pre(2)] by auto
  have bw: "busy w' = busy w" "ephemeral w' = ephemeral w"
    using w' po by (simp_all add: probes_only_def emit_def)
  have "bind_target w' port = bind_target w2 port"
    by (rule bind_target_cong) (use w' in \<open>simp_all add: emit_def\<close>)
  then have av: "fst (IsPortAvailable w' port)" using bt pp by (simp add: IsPortAvailable_eq)
  have tmo: "resp = None \<and> err = Some (ErrCallbackTimeout (timeout c))"
    if "open_error w ?url = None" "\<forall>r \<in> set (replies w ?url). rport r \<noteq> q"
  proof -
    have f: "open_error ?W3 = open_error w" "replies ?W3 = replies w"
      using po by (simp_all add: probes_only_def emit_def)
    have "response (serve_all ?S (replies w ?url)) = None"
      by (rule serve_all_silent) (use that(2) in auto)
    then show ?thesis using re that(1) f by (simp add: Execute_deferred_result)
  qed
  show ?thesis
    by (intro exI[of _ pre] exI[of _ ?url] exI[of _ q]) (use lg pre(2) bw(1) av tmo pp in blast)
qed

theorem Execute_stops_receiver_witness:
  "Execute client_default ''add'' None opts_none world_two_busy
     = ((None, Some (ErrCallbackTimeout 10000000000)),
        snd (Execute client_default ''add'' None opts_none world_two_busy))
   \<and> EvStart 8767 \<in> set (drop (length (log world_two_busy))
                         (log (snd (Execute client_default ''add'' None opts_none world_two_busy))))
   \<and> busy (snd (Execute client_default ''add'' None opts_none world_two_busy)) = busy world_two_busy
   \<and> fst (IsPortAvailable (snd (Execute client_default ''add'' None opts_none world_two_busy)) 8767)
   \<and> last (log (snd (Execute client_default ''add'' None opts_none world_two_busy))) = EvClose 8767"
proof -
  have a: "Execute client_default ''add'' None opts_none world_two_busy
     = ((None, Some (ErrCallbackTimeout 10000000000)),
        snd (Execute client_default ''add'' None opts_none world_two_busy))"
    using Execute_timeout_example by (metis prod.collapse)
  have b: "EvStart 8767 \<in> set (drop (length (log world_two_busy))
                         (log (snd (Execute client_default ''add'' None opts_none world_two_busy))))"
    using Execute_timeout_world by (simp add: world_two_busy_def)
  have c: "last (log (snd (Execute client_default ''add'' None opts_none world_two_busy))) = EvClose 8767"
    using Execute_timeout_world by simp
  show ?thesis using a b c Execute_stops_receiver [OF a b] by blast
qed

end
